theory Spec2Isabelle
  imports Complex_Main
begin

section \<open>NumPy floating-point values\<close>

text \<open>
  The arrays of \<^verbatim>\<open>utils.py\<close> hold doubles. A finite double is read as the real
  number it denotes; \<open>NaN\<close> is kept as a value of its own, since \<^verbatim>\<open>np.arcsin\<close>
  produces it outside \<open>[-1, 1]\<close> (with a warning, not an exception) and every operation
  passes it on. A one-dimensional array is a list. In this first reading an operation on
  finite values is exact; the rounding of each operation is added further below, for the
  property that depends on it.
\<close>

datatype npfloat = NaN | Fin real

definition np_lift :: "(real \<Rightarrow> real) \<Rightarrow> npfloat \<Rightarrow> npfloat" where
  "np_lift f a = (case a of NaN \<Rightarrow> NaN | Fin x \<Rightarrow> Fin (f x))"

definition np_lift2 :: "(real \<Rightarrow> real \<Rightarrow> real) \<Rightarrow> npfloat \<Rightarrow> npfloat \<Rightarrow> npfloat" where
  "np_lift2 f a b =
     (case a of NaN \<Rightarrow> NaN
      | Fin x \<Rightarrow> (case b of NaN \<Rightarrow> NaN | Fin y \<Rightarrow> Fin (f x y)))"

definition np_add :: "npfloat \<Rightarrow> npfloat \<Rightarrow> npfloat" where
  "np_add = np_lift2 (+)"

definition np_sub :: "npfloat \<Rightarrow> npfloat \<Rightarrow> npfloat" where
  "np_sub = np_lift2 (-)"

definition np_mul :: "npfloat \<Rightarrow> npfloat \<Rightarrow> npfloat" where
  "np_mul = np_lift2 (*)"

definition np_div :: "npfloat \<Rightarrow> npfloat \<Rightarrow> npfloat" where
  \<comment> \<open>A zero divisor gives \<open>inf\<close> or \<open>nan\<close> in NumPy, neither of them finite; the only
      non-finite value here is \<open>NaN\<close>.\<close>
  "np_div a b =
     (case a of NaN \<Rightarrow> NaN
      | Fin x \<Rightarrow> (case b of NaN \<Rightarrow> NaN
                  | Fin y \<Rightarrow> if y = 0 then NaN else Fin (x / y)))"

definition np_sin :: "npfloat \<Rightarrow> npfloat" where
  "np_sin = np_lift sin"

definition np_cos :: "npfloat \<Rightarrow> npfloat" where
  "np_cos = np_lift cos"

definition np_arcsin :: "npfloat \<Rightarrow> npfloat" where
  \<comment> \<open>\<^verbatim>\<open>np.arcsin\<close>: \<open>nan\<close> outside \<open>[-1, 1]\<close>.\<close>
  "np_arcsin a =
     (case a of NaN \<Rightarrow> NaN
      | Fin x \<Rightarrow> if - 1 \<le> x \<and> x \<le> 1 then Fin (arcsin x) else NaN)"

definition np_rad2deg :: "npfloat \<Rightarrow> npfloat" where
  "np_rad2deg = np_lift (\<lambda>x. x * (180 / pi))"

definition py_pow :: "npfloat \<Rightarrow> real \<Rightarrow> npfloat" where
  \<comment> \<open>\<^verbatim>\<open>pow(a, e)\<close> on a double: a negative base with a fractional exponent is
      \<open>nan\<close>, zero to a negative exponent is not finite.\<close>
  "py_pow a e =
     (case a of NaN \<Rightarrow> NaN
      | Fin b \<Rightarrow>
          if 0 < b then Fin (b powr e)
          else if b = 0 then (if 0 < e then Fin 0 else if e = 0 then Fin 1 else NaN)
          else if of_int \<lfloor>e\<rfloor> = e then Fin (b powi \<lfloor>e\<rfloor>)
          else NaN)"

section \<open>Linearization parameters\<close>

definition compute_gps_conversion_params :: "npfloat \<times> npfloat \<times> npfloat \<times> npfloat" where
  "compute_gps_conversion_params =
     (let LAT_0 = Fin 0.738167915410646;
          LON_0 = Fin (- 1.46098650670922);
          re = (6378135 :: int);
          rp = (6356750 :: int);
          r_ns = np_div (Fin (of_int ((re * rp) ^ 2)))
                   (py_pow (np_add (py_pow (np_mul (Fin (of_int re)) (np_cos LAT_0)) 2)
                                   (py_pow (np_mul (Fin (of_int rp)) (np_sin LAT_0)) 2))
                           (3 / 2));
          r_ew = np_div (Fin (of_int (re ^ 2)))
                   (py_pow (np_add (py_pow (np_mul (Fin (of_int re)) (np_cos LAT_0)) 2)
                                   (py_pow (np_mul (Fin (of_int rp)) (np_sin LAT_0)) 2))
                           (1 / 2))
      in (r_ns, r_ew, LAT_0, LON_0))"

text \<open>The real numbers the parameters denote.\<close>

definition lat0 :: real where
  "lat0 = 0.738167915410646"

definition lon0 :: real where
  "lon0 = - 1.46098650670922"

definition offset_x :: real where
  "offset_x = 76.50582406697139"

definition offset_y :: real where
  "offset_y = 108.31373031919006"

definition curv_base :: real where
  "curv_base = (6378135 * cos lat0)\<^sup>2 + (6356750 * sin lat0)\<^sup>2"

definition r_ns_val :: real where
  "r_ns_val = (6378135 * 6356750)\<^sup>2 / curv_base powr (3 / 2)"

definition r_ew_val :: real where
  "r_ew_val = 6378135\<^sup>2 / curv_base powr (1 / 2)"

section \<open>Forward and inverse conversion\<close>

definition gps_to_local_coord :: "npfloat list \<Rightarrow> npfloat list \<Rightarrow> npfloat list \<times> npfloat list" where
  "gps_to_local_coord lat lon =
     (case compute_gps_conversion_params of
        (r_ns, r_ew, LAT_0, LON_0) \<Rightarrow>
          let x = map (\<lambda>v. np_mul (np_sin (np_sub v LAT_0)) r_ns) lat;
              y = map (\<lambda>v. np_mul (np_mul (np_sin (np_sub v LON_0)) r_ew) (np_cos LAT_0)) lon
          in (x, y))"

definition local_to_gps_coord :: "npfloat list \<Rightarrow> npfloat list \<Rightarrow> npfloat list \<times> npfloat list" where
  "local_to_gps_coord x y =
     (case compute_gps_conversion_params of
        (r_ns, r_ew, LAT_0, LON_0) \<Rightarrow>
          let x' = map (\<lambda>v. np_sub v (Fin 76.50582406697139)) x;
              y' = map (\<lambda>v. np_sub v (Fin 108.31373031919006)) y;
              lat = map (\<lambda>v. np_add (np_arcsin (np_div v r_ns)) LAT_0) x';
              lon = map (\<lambda>v. np_add (np_arcsin (np_div v (np_mul r_ew (np_cos LAT_0)))) LON_0) y';
              lat' = map np_rad2deg lat;
              lon' = map np_rad2deg lon
          in (lat', lon'))"

text \<open>
  Comparison of two array elements up to a tolerance, as a test of the conversion compares
  them: a comparison with \<open>nan\<close> is false.
\<close>

definition np_close :: "real \<Rightarrow> npfloat \<Rightarrow> npfloat \<Rightarrow> bool" where
  "np_close tol a b =
     (case a of NaN \<Rightarrow> False
      | Fin x \<Rightarrow> (case b of NaN \<Rightarrow> False | Fin y \<Rightarrow> \<bar>x - y\<bar> \<le> tol))"

definition np_allclose :: "real \<Rightarrow> npfloat list \<Rightarrow> npfloat list \<Rightarrow> bool" where
  "np_allclose tol xs ys = list_all2 (np_close tol) xs ys"

definition np_positive :: "npfloat \<Rightarrow> bool" where
  "np_positive a = (case a of NaN \<Rightarrow> False | Fin x \<Rightarrow> 0 < x)"

section \<open>Formatting and export\<close>

fun join :: "string \<Rightarrow> string list \<Rightarrow> string" where
  "join sep [] = []"
| "join sep [s] = s"
| "join sep (s # t # ts) = s @ sep @ join sep (t # ts)"

text \<open>
  \<^verbatim>\<open>"{},{},1".format(lo, la)\<close> turns each float into text with Python's own conversion
  (the shortest decimal that reads back as the same double). It is not part of the
  repository: the conversion is the parameter \<open>str\<close>.
\<close>

definition format_lat_lon :: "('a \<Rightarrow> string) \<Rightarrow> 'a list \<Rightarrow> 'a list \<Rightarrow> string" where
  "format_lat_lon str lat lon =
     (let l = map (\<lambda>(la, lo). ''            '' @ str lo @ '','' @ str la @ '',1'') (zip lat lon)
      in join [CHR 0x0A] l)"

text \<open>
  On a whole number below \<open>10^16\<close> Python's conversion prints the integer's digits and
  \<open>.0\<close>; \<open>str_whole\<close> is the conversion on these values and on \<open>nan\<close>, used where a
  literal case needs a concrete \<open>str\<close> (on any other value it prints the integer part only,
  which is not what Python prints there).
\<close>

definition digit_char :: "nat \<Rightarrow> char" where
  "digit_char d = ''0123456789'' ! d"

function nat_str :: "nat \<Rightarrow> string" where
  "nat_str n = (if n < 10 then [digit_char n] else nat_str (n div 10) @ [digit_char (n mod 10)])"
  by pat_completeness auto
termination
  by (relation "measure id") auto

declare nat_str.simps [simp del]

definition str_whole :: "npfloat \<Rightarrow> string" where
  "str_whole a =
     (case a of NaN \<Rightarrow> ''nan''
      | Fin x \<Rightarrow> (if x < 0 then ''-'' else []) @ nat_str (nat \<lfloor>\<bar>x\<bar>\<rfloor>) @ ''.0'')"

text \<open>Python's \<^verbatim>\<open>xs[start::step]\<close> for \<open>start \<ge> 0\<close> and \<open>step \<ge> 1\<close>.\<close>

fun take_every :: "nat \<Rightarrow> 'a list \<Rightarrow> 'a list" where
  "take_every k [] = []"
| "take_every k (x # xs) = x # take_every k (drop (k - 1) xs)"

definition slice_from_step :: "nat \<Rightarrow> nat \<Rightarrow> 'a list \<Rightarrow> 'a list" where
  "slice_from_step start step xs = take_every step (drop start xs)"

text \<open>
  The KML document: the texts of its \<^verbatim>\<open>name\<close> elements and of its
  \<^verbatim>\<open>coordinates\<close> elements, each in document order, which is all that
  \<^verbatim>\<open>export_to_kml\<close> reads or changes. Reading \<^verbatim>\<open>template.kml\<close> and writing
  \<^verbatim>\<open>output.kml\<close> are left to the caller: the function takes the parsed template and
  returns the document it writes, or the exception it raises before writing.
\<close>

record kml =
  names :: "string list"
  coordinates :: "string list"

datatype py_error = IndexError | TypeError

definition export_to_kml ::
  "(npfloat \<Rightarrow> string) \<Rightarrow> kml \<Rightarrow> npfloat list option \<Rightarrow> npfloat list option \<Rightarrow>
   npfloat list option \<Rightarrow> npfloat list option \<Rightarrow> string \<Rightarrow> string \<Rightarrow> bool \<Rightarrow> py_error + kml" where
  "export_to_kml str doc x1 y1 x2 y2 label1 label2 subsample =
     (if length (names doc) < 3 then Inl IndexError
      else let doc = doc\<lparr>names := (names doc)[1 := label1, 2 := label2]\<rparr> in
      if length (coordinates doc) < 2 then Inl IndexError
      else
        case (case x1 of
                None \<Rightarrow> Inr doc
              | Some xs1 \<Rightarrow>
                  (case y1 of
                     None \<Rightarrow> Inl TypeError
                   | Some ys1 \<Rightarrow>
                       (case local_to_gps_coord xs1 ys1 of
                          (lat1, lon1) \<Rightarrow>
                            Inr (doc\<lparr>coordinates :=
                                   (coordinates doc)[0 := format_lat_lon str lat1 lon1]\<rparr>)))) of
          Inl e \<Rightarrow> Inl e
        | Inr doc \<Rightarrow>
            (case x2 of
               None \<Rightarrow> Inr doc
             | Some xs2 \<Rightarrow>
                 (case y2 of
                    None \<Rightarrow> Inl TypeError
                  | Some ys2 \<Rightarrow>
                      (let xs2' = (if subsample then slice_from_step 1 200 xs2 else xs2);
                           ys2' = (if subsample then slice_from_step 1 200 ys2 else ys2)
                       in case local_to_gps_coord xs2' ys2' of
                            (lat2, lon2) \<Rightarrow>
                              Inr (doc\<lparr>coordinates :=
                                     (coordinates doc)[1 := format_lat_lon str lat2 lon2]\<rparr>)))))"

text \<open>
  One element of the inverse projection written on the reals: subtract the offset, divide by
  the radius, take the arcsine where it is defined, add the reference angle, convert to
  degrees.
\<close>

definition inverse_elem :: "real \<Rightarrow> real \<Rightarrow> real \<Rightarrow> npfloat \<Rightarrow> npfloat" where
  "inverse_elem off r c v =
     (case v of NaN \<Rightarrow> NaN
      | Fin a \<Rightarrow> if \<bar>(a - off) / r\<bar> \<le> 1
                 then Fin ((arcsin ((a - off) / r) + c) * (180 / pi)) else NaN)"

section \<open>The conversions in rounded arithmetic\<close>

text \<open>
  Above, an operation on finite doubles is exact. That settles which formula the code
  evaluates, its signs, its zeros and where \<open>nan\<close> appears, but not how far a computed
  result lies from the formula's value. For that the same three functions are written once
  more with the arithmetic as a parameter: \<open>float_ops\<close> gives, for each operation the
  code uses, the double it returns (as the real it denotes). Nothing else changes: the
  same operations in the same order, the same checks for \<open>nan\<close>.
\<close>

record float_ops =
  fl_of_int :: "int \<Rightarrow> real"
  fl_add :: "real \<Rightarrow> real \<Rightarrow> real"
  fl_sub :: "real \<Rightarrow> real \<Rightarrow> real"
  fl_mul :: "real \<Rightarrow> real \<Rightarrow> real"
  fl_div :: "real \<Rightarrow> real \<Rightarrow> real"
  fl_pow :: "real \<Rightarrow> real \<Rightarrow> real"
  fl_sin :: "real \<Rightarrow> real"
  fl_cos :: "real \<Rightarrow> real"
  fl_arcsin :: "real \<Rightarrow> real"
  fl_rad2deg :: "real \<Rightarrow> real"

definition np_div_fl :: "float_ops \<Rightarrow> npfloat \<Rightarrow> npfloat \<Rightarrow> npfloat" where
  "np_div_fl ops a b =
     (case a of NaN \<Rightarrow> NaN
      | Fin x \<Rightarrow> (case b of NaN \<Rightarrow> NaN
                  | Fin y \<Rightarrow> if y = 0 then NaN else Fin (fl_div ops x y)))"

definition np_arcsin_fl :: "float_ops \<Rightarrow> npfloat \<Rightarrow> npfloat" where
  "np_arcsin_fl ops a =
     (case a of NaN \<Rightarrow> NaN
      | Fin x \<Rightarrow> if - 1 \<le> x \<and> x \<le> 1 then Fin (fl_arcsin ops x) else NaN)"

definition py_pow_fl :: "float_ops \<Rightarrow> npfloat \<Rightarrow> real \<Rightarrow> npfloat" where
  "py_pow_fl ops a e =
     (case a of NaN \<Rightarrow> NaN
      | Fin b \<Rightarrow>
          if 0 < b then Fin (fl_pow ops b e)
          else if b = 0 then (if 0 < e then Fin 0 else if e = 0 then Fin 1 else NaN)
          else if of_int \<lfloor>e\<rfloor> = e then Fin (fl_pow ops b e)
          else NaN)"

definition compute_gps_conversion_params_fl ::
  "float_ops \<Rightarrow> npfloat \<times> npfloat \<times> npfloat \<times> npfloat" where
  "compute_gps_conversion_params_fl ops =
     (let LAT_0 = Fin 0.738167915410646;
          LON_0 = Fin (- 1.46098650670922);
          re = (6378135 :: int);
          rp = (6356750 :: int);
          r_ns = np_div_fl ops (Fin (fl_of_int ops ((re * rp) ^ 2)))
                   (py_pow_fl ops
                      (np_lift2 (fl_add ops)
                         (py_pow_fl ops (np_lift2 (fl_mul ops) (Fin (fl_of_int ops re))
                                           (np_lift (fl_cos ops) LAT_0)) 2)
                         (py_pow_fl ops (np_lift2 (fl_mul ops) (Fin (fl_of_int ops rp))
                                           (np_lift (fl_sin ops) LAT_0)) 2))
                      (3 / 2));
          r_ew = np_div_fl ops (Fin (fl_of_int ops (re ^ 2)))
                   (py_pow_fl ops
                      (np_lift2 (fl_add ops)
                         (py_pow_fl ops (np_lift2 (fl_mul ops) (Fin (fl_of_int ops re))
                                           (np_lift (fl_cos ops) LAT_0)) 2)
                         (py_pow_fl ops (np_lift2 (fl_mul ops) (Fin (fl_of_int ops rp))
                                           (np_lift (fl_sin ops) LAT_0)) 2))
                      (1 / 2))
      in (r_ns, r_ew, LAT_0, LON_0))"

definition gps_to_local_coord_fl ::
  "float_ops \<Rightarrow> npfloat list \<Rightarrow> npfloat list \<Rightarrow> npfloat list \<times> npfloat list" where
  "gps_to_local_coord_fl ops lat lon =
     (case compute_gps_conversion_params_fl ops of
        (r_ns, r_ew, LAT_0, LON_0) \<Rightarrow>
          let x = map (\<lambda>v. np_lift2 (fl_mul ops)
                         (np_lift (fl_sin ops) (np_lift2 (fl_sub ops) v LAT_0)) r_ns) lat;
              y = map (\<lambda>v. np_lift2 (fl_mul ops)
                         (np_lift2 (fl_mul ops)
                            (np_lift (fl_sin ops) (np_lift2 (fl_sub ops) v LON_0)) r_ew)
                         (np_lift (fl_cos ops) LAT_0)) lon
          in (x, y))"

definition local_to_gps_coord_fl ::
  "float_ops \<Rightarrow> npfloat list \<Rightarrow> npfloat list \<Rightarrow> npfloat list \<times> npfloat list" where
  "local_to_gps_coord_fl ops x y =
     (case compute_gps_conversion_params_fl ops of
        (r_ns, r_ew, LAT_0, LON_0) \<Rightarrow>
          let x' = map (\<lambda>v. np_lift2 (fl_sub ops) v (Fin 76.50582406697139)) x;
              y' = map (\<lambda>v. np_lift2 (fl_sub ops) v (Fin 108.31373031919006)) y;
              lat = map (\<lambda>v. np_lift2 (fl_add ops)
                           (np_arcsin_fl ops (np_div_fl ops v r_ns)) LAT_0) x';
              lon = map (\<lambda>v. np_lift2 (fl_add ops)
                           (np_arcsin_fl ops
                              (np_div_fl ops v
                                 (np_lift2 (fl_mul ops) r_ew (np_lift (fl_cos ops) LAT_0))))
                           LON_0) y';
              lat' = map (np_lift (fl_rad2deg ops)) lat;
              lon' = map (np_lift (fl_rad2deg ops)) lon
          in (lat', lon'))"

text \<open>
  What is asked of the arithmetic is the usual model of floating point, kept weak enough
  that the doubles of the code meet it: an operation whose exact result \<open>x\<close> has magnitude
  at most \<open>10^30\<close> (far from overflow) returns \<open>x\<close> up to \<open>u * (\<bar>x\<bar> + 1)\<close>,
  a relative error \<open>u\<close> plus an absolute error \<open>u\<close>. For IEEE doubles rounded to nearest the
  relative error is \<open>2^-53\<close> on the four basic operations and on the conversion from
  integers, and a few units more for the library functions; the absolute part covers
  gradual underflow and the rounding of the decimal literals of the source (the reference
  point, the offsets) to doubles. The exact result has to be defined: a non-zero divisor, a
  positive base of a power, an arcsine argument in \<open>[-1, 1]\<close>; the sine and cosine are
  only asked to be accurate on \<open>[-4, 4]\<close>.
\<close>

definition close_to :: "real \<Rightarrow> real \<Rightarrow> real \<Rightarrow> bool" where
  "close_to u a x \<longleftrightarrow> (\<bar>x\<bar> \<le> 10 ^ 30 \<longrightarrow> \<bar>a - x\<bar> \<le> u * (\<bar>x\<bar> + 1))"

definition accurate :: "real \<Rightarrow> float_ops \<Rightarrow> bool" where
  "accurate u ops \<longleftrightarrow>
     0 \<le> u
     \<and> (\<forall>n. close_to u (fl_of_int ops n) (of_int n))
     \<and> (\<forall>a b. close_to u (fl_add ops a b) (a + b))
     \<and> (\<forall>a b. close_to u (fl_sub ops a b) (a - b))
     \<and> (\<forall>a b. close_to u (fl_mul ops a b) (a * b))
     \<and> (\<forall>a b. b \<noteq> 0 \<longrightarrow> close_to u (fl_div ops a b) (a / b))
     \<and> (\<forall>b e. 0 < b \<longrightarrow> close_to u (fl_pow ops b e) (b powr e))
     \<and> (\<forall>a. \<bar>a\<bar> \<le> 4 \<longrightarrow> close_to u (fl_sin ops a) (sin a))
     \<and> (\<forall>a. \<bar>a\<bar> \<le> 4 \<longrightarrow> close_to u (fl_cos ops a) (cos a))
     \<and> (\<forall>a. \<bar>a\<bar> \<le> 1 \<longrightarrow> close_to u (fl_arcsin ops a) (arcsin a))
     \<and> (\<forall>a. close_to u (fl_rad2deg ops a) (a * (180 / pi)))"

text \<open>
  Two instances: the exact arithmetic, with which the functions above are the ones of the
  previous sections, and an arithmetic whose every result is too large by the relative
  \<open>10^-13\<close>.
\<close>

definition exact_ops :: float_ops where
  "exact_ops =
     \<lparr>fl_of_int = of_int, fl_add = (+), fl_sub = (-), fl_mul = (*), fl_div = (/),
      fl_pow = (\<lambda>b e. if 0 < b then b powr e else b powi \<lfloor>e\<rfloor>),
      fl_sin = sin, fl_cos = cos, fl_arcsin = arcsin,
      fl_rad2deg = (\<lambda>x. x * (180 / pi))\<rparr>"

definition skew :: "real \<Rightarrow> real" where
  "skew x = x * (1 + 1 / 10 ^ 13)"

definition skewed_ops :: float_ops where
  "skewed_ops =
     \<lparr>fl_of_int = (\<lambda>n. skew (of_int n)),
      fl_add = (\<lambda>a b. skew (a + b)), fl_sub = (\<lambda>a b. skew (a - b)),
      fl_mul = (\<lambda>a b. skew (a * b)), fl_div = (\<lambda>a b. skew (a / b)),
      fl_pow = (\<lambda>b e. skew (b powr e)),
      fl_sin = (\<lambda>a. skew (sin a)), fl_cos = (\<lambda>a. skew (cos a)),
      fl_arcsin = (\<lambda>a. skew (arcsin a)),
      fl_rad2deg = (\<lambda>a. skew (a * (180 / pi)))\<rparr>"

text \<open>
  The values the rounded parameter derivation computes (the base of the two powers, the two
  radii, the divisor of the longitude), and one element of the rounded inverse conversion.
\<close>

definition base_fl :: "float_ops \<Rightarrow> real" where
  "base_fl ops =
     fl_add ops (fl_pow ops (fl_mul ops (fl_of_int ops 6378135) (fl_cos ops lat0)) 2)
       (fl_pow ops (fl_mul ops (fl_of_int ops 6356750) (fl_sin ops lat0)) 2)"

definition r_ns_fl :: "float_ops \<Rightarrow> real" where
  "r_ns_fl ops =
     fl_div ops (fl_of_int ops ((6378135 * 6356750) ^ 2)) (fl_pow ops (base_fl ops) (3 / 2))"

definition r_ew_fl :: "float_ops \<Rightarrow> real" where
  "r_ew_fl ops = fl_div ops (fl_of_int ops (6378135 ^ 2)) (fl_pow ops (base_fl ops) (1 / 2))"

definition ew_cos_fl :: "float_ops \<Rightarrow> real" where
  "ew_cos_fl ops = fl_mul ops (r_ew_fl ops) (fl_cos ops lat0)"

definition inverse_elem_fl :: "float_ops \<Rightarrow> real \<Rightarrow> real \<Rightarrow> real \<Rightarrow> real \<Rightarrow> npfloat" where
  "inverse_elem_fl ops off r c a =
     (if - 1 \<le> fl_div ops (fl_sub ops a off) r \<and> fl_div ops (fl_sub ops a off) r \<le> 1
      then Fin (fl_rad2deg ops (fl_add ops (fl_arcsin ops (fl_div ops (fl_sub ops a off) r)) c))
      else NaN)"

text \<open>
  \<open>near r a b\<close>: the positive number \<open>b\<close> is met by \<open>a\<close> up to the factor \<open>1 \<plusminus> r\<close>.
\<close>

definition near :: "real \<Rightarrow> real \<Rightarrow> real \<Rightarrow> bool" where
  "near r a b \<longleftrightarrow> 0 < b \<and> (1 - r) * b \<le> a \<and> a \<le> (1 + r) * b"

section \<open>Facts about the parameters\<close>

lemma pi_ge_three: "3 \<le> pi"
proof -
  have "sin (pi / 6) \<le> pi / 6"
    by (intro sin_x_le_x) simp
  then show ?thesis
    by (simp add: sin_30)
qed

lemma lat0_bounds: "0 < lat0" "lat0 < pi / 2"
  using pi_ge_three by (simp_all add: lat0_def)

lemma cos_lat0_pos: "0 < cos lat0"
  using lat0_bounds by (intro cos_gt_zero_pi) simp_all

lemma curv_base_pos: "0 < curv_base"
proof -
  have "0 < (6378135 * cos lat0)\<^sup>2"
    using cos_lat0_pos by simp
  moreover have "0 \<le> (6356750 * sin lat0)\<^sup>2"
    by simp
  ultimately show ?thesis
    unfolding curv_base_def by linarith
qed

lemma r_ns_val_pos: "0 < r_ns_val"
  using curv_base_pos by (simp add: r_ns_val_def)

lemma r_ew_val_pos: "0 < r_ew_val"
  using curv_base_pos by (simp add: r_ew_val_def)

lemma py_pow_sq: "py_pow (Fin b) 2 = Fin (b\<^sup>2)"
proof -
  consider "0 < b" | "b = 0" | "b < 0" by linarith
  then show ?thesis
  proof cases
    case 1
    then show ?thesis by (simp add: py_pow_def)
  next
    case 2
    then show ?thesis by (simp add: py_pow_def)
  next
    case 3
    then show ?thesis by (simp add: py_pow_def)
  qed
qed

lemma params_eq:
  "compute_gps_conversion_params = (Fin r_ns_val, Fin r_ew_val, Fin lat0, Fin lon0)"
proof -
  have b: "np_add (py_pow (np_mul (Fin (of_int 6378135)) (np_cos (Fin lat0))) 2)
                  (py_pow (np_mul (Fin (of_int 6356750)) (np_sin (Fin lat0))) 2)
           = Fin curv_base"
    by (simp add: np_mul_def np_cos_def np_sin_def np_add_def np_lift_def np_lift2_def
        py_pow_sq curv_base_def)
  have p: "py_pow (Fin curv_base) e = Fin (curv_base powr e)" for e
    using curv_base_pos by (simp add: py_pow_def)
  have nz: "curv_base powr e \<noteq> 0" for e
    using curv_base_pos by simp
  have l1: "Fin 0.738167915410646 = Fin lat0"
    by (simp add: lat0_def)
  have l2: "Fin (- 1.46098650670922) = Fin lon0"
    by (simp add: lon0_def)
  show ?thesis
    unfolding compute_gps_conversion_params_def Let_def l1 l2 b p
    using nz by (simp add: np_div_def r_ns_val_def r_ew_val_def)
qed

section \<open>The conversions, element by element\<close>

lemma forward_lat_elem:
  "np_mul (np_sin (np_sub v (Fin lat0))) (Fin r_ns_val) = np_lift (\<lambda>a. sin (a - lat0) * r_ns_val) v"
  by (cases v) (simp_all add: np_mul_def np_sin_def np_sub_def np_lift_def np_lift2_def)

lemma forward_lon_elem:
  "np_mul (np_mul (np_sin (np_sub v (Fin lon0))) (Fin r_ew_val)) (np_cos (Fin lat0))
   = np_lift (\<lambda>b. sin (b - lon0) * r_ew_val * cos lat0) v"
  by (cases v) (simp_all add: np_mul_def np_sin_def np_cos_def np_sub_def np_lift_def np_lift2_def)

lemma gps_to_local_coord_eq:
  "gps_to_local_coord lat lon =
     (map (np_lift (\<lambda>a. sin (a - lat0) * r_ns_val)) lat,
      map (np_lift (\<lambda>b. sin (b - lon0) * r_ew_val * cos lat0)) lon)"
  by (simp add: gps_to_local_coord_def params_eq forward_lat_elem forward_lon_elem)

lemma inverse_elem_eq:
  assumes "r \<noteq> 0"
  shows "np_rad2deg (np_add (np_arcsin (np_div (np_sub v (Fin off)) (Fin r))) (Fin c))
    = inverse_elem off r c v"
proof (cases v)
  case NaN
  then show ?thesis
    by (simp add: np_rad2deg_def np_add_def np_arcsin_def np_div_def np_sub_def
        np_lift_def np_lift2_def inverse_elem_def)
next
  case (Fin a)
  define z where "z = (a - off) / r"
  have d: "np_div (np_sub v (Fin off)) (Fin r) = Fin z"
    using assms Fin by (simp add: np_div_def np_sub_def np_lift2_def z_def)
  have e: "inverse_elem off r c v = (if \<bar>z\<bar> \<le> 1 then Fin ((arcsin z + c) * (180 / pi)) else NaN)"
    unfolding inverse_elem_def z_def Fin by simp
  have "np_rad2deg (np_add (np_arcsin (Fin z)) (Fin c))
      = (if \<bar>z\<bar> \<le> 1 then Fin ((arcsin z + c) * (180 / pi)) else NaN)"
    by (simp add: np_rad2deg_def np_add_def np_arcsin_def np_lift_def np_lift2_def abs_le_iff)
  then show ?thesis
    unfolding d e .
qed

lemma inverse_lat_elem:
  "np_rad2deg (np_add (np_arcsin (np_div (np_sub v (Fin 76.50582406697139)) (Fin r_ns_val)))
      (Fin lat0))
   = inverse_elem offset_x r_ns_val lat0 v"
proof -
  have o: "Fin 76.50582406697139 = Fin offset_x"
    by (simp add: offset_x_def)
  have n: "r_ns_val \<noteq> 0"
    using r_ns_val_pos by simp
  show ?thesis
    unfolding o by (rule inverse_elem_eq [OF n])
qed

lemma inverse_lon_elem:
  "np_rad2deg (np_add (np_arcsin (np_div (np_sub v (Fin 108.31373031919006))
      (np_mul (Fin r_ew_val) (np_cos (Fin lat0))))) (Fin lon0))
   = inverse_elem offset_y (r_ew_val * cos lat0) lon0 v"
proof -
  have o: "Fin 108.31373031919006 = Fin offset_y"
    by (simp add: offset_y_def)
  have m: "np_mul (Fin r_ew_val) (np_cos (Fin lat0)) = Fin (r_ew_val * cos lat0)"
    by (simp add: np_mul_def np_cos_def np_lift_def np_lift2_def)
  have n: "r_ew_val * cos lat0 \<noteq> 0"
    using r_ew_val_pos cos_lat0_pos by simp
  show ?thesis
    unfolding o m by (rule inverse_elem_eq [OF n])
qed

lemma local_to_gps_coord_eq:
  "local_to_gps_coord x y =
     (map (inverse_elem offset_x r_ns_val lat0) x,
      map (inverse_elem offset_y (r_ew_val * cos lat0) lon0) y)"
  unfolding local_to_gps_coord_def params_eq
  by (simp only: Let_def prod.case map_map o_def inverse_lat_elem inverse_lon_elem)

section \<open>Bounds on the radii\<close>

lemma curv_base_ge: "6356750\<^sup>2 \<le> curv_base"
proof -
  have "curv_base = 6356750\<^sup>2 + (6378135\<^sup>2 - 6356750\<^sup>2) * (cos lat0)\<^sup>2"
    unfolding curv_base_def by (simp add: sin_squared_eq algebra_simps)
  moreover have "0 \<le> (6378135\<^sup>2 - 6356750\<^sup>2) * (cos lat0)\<^sup>2"
    by simp
  ultimately show ?thesis
    by linarith
qed

lemma curv_base_powr_ge:
  "6356750 ^ 3 \<le> curv_base powr (3 / 2)" "6356750 \<le> curv_base powr (1 / 2)"
proof -
  have e: "(6356750\<^sup>2 :: real) powr a = 6356750 powr (2 * a)" for a :: real
  proof -
    have "(6356750\<^sup>2 :: real) = 6356750 powr 2"
      by simp
    then show ?thesis
      by (simp only: powr_powr)
  qed
  have "(6356750\<^sup>2 :: real) powr (3 / 2) \<le> curv_base powr (3 / 2)"
    using curv_base_ge by (intro powr_mono2) simp_all
  then show "6356750 ^ 3 \<le> curv_base powr (3 / 2)"
    unfolding e by simp
  have "(6356750\<^sup>2 :: real) powr (1 / 2) \<le> curv_base powr (1 / 2)"
    using curv_base_ge by (intro powr_mono2) simp_all
  then show "6356750 \<le> curv_base powr (1 / 2)"
    unfolding e by simp
qed

lemma r_ns_val_le: "r_ns_val \<le> 6400000"
proof -
  have "r_ns_val \<le> (6378135 * 6356750)\<^sup>2 / 6356750 ^ 3"
    unfolding r_ns_val_def using curv_base_powr_ge(1) curv_base_pos
    by (intro divide_left_mono) simp_all
  also have "\<dots> \<le> 6400000"
    by simp
  finally show ?thesis .
qed

lemma r_ew_val_le: "r_ew_val \<le> 6400000"
proof -
  have "r_ew_val \<le> 6378135\<^sup>2 / 6356750"
    unfolding r_ew_val_def using curv_base_powr_ge(2) curv_base_pos
    by (intro divide_left_mono) simp_all
  also have "\<dots> \<le> 6400000"
    by simp
  finally show ?thesis .
qed

lemma r_ew_cos_le: "r_ew_val * cos lat0 \<le> 6400000"
proof -
  have "r_ew_val * cos lat0 \<le> r_ew_val * 1"
    using r_ew_val_pos by (intro mult_left_mono) simp_all
  then show ?thesis
    using r_ew_val_le by simp
qed

lemma r_ew_cos_pos: "0 < r_ew_val * cos lat0"
  using r_ew_val_pos cos_lat0_pos by simp

section \<open>Inverting the forward projection\<close>

lemma arcsin_diff_ge:
  assumes "- 1 \<le> a" "a \<le> b" "b \<le> 1"
  shows "b - a \<le> arcsin b - arcsin a"
proof -
  define u where "u = arcsin a"
  define v where "v = arcsin b"
  have a1: "- 1 \<le> a" "a \<le> 1" and b1: "- 1 \<le> b" "b \<le> 1"
    using assms by simp_all
  have ub: "- (pi / 2) \<le> u" "u \<le> pi / 2"
    using arcsin_bounded [OF a1] by (simp_all add: u_def)
  have vb: "- (pi / 2) \<le> v" "v \<le> pi / 2"
    using arcsin_bounded [OF b1] by (simp_all add: v_def)
  have uv: "u \<le> v"
    unfolding u_def v_def using assms by (intro arcsin_le_arcsin) simp_all
  have su: "sin u = a" and sv: "sin v = b"
    using a1 b1 by (simp_all add: u_def v_def)
  define h where "h = (v - u) / 2"
  have h0: "0 \<le> h" and hpi: "h \<le> pi"
    using uv ub vb by (simp_all add: h_def)
  have s0: "0 \<le> sin h"
    using h0 hpi by (rule sin_ge_zero)
  have sh: "sin h \<le> h"
    using h0 by (rule sin_x_le_x)
  have "sin h * cos ((v + u) / 2) \<le> sin h * 1"
    using s0 by (intro mult_left_mono) simp_all
  then have "2 * sin h * cos ((v + u) / 2) \<le> 2 * h"
    using sh by simp
  moreover have "sin v - sin u = 2 * sin h * cos ((v + u) / 2)"
    unfolding h_def by (rule sin_diff_sin)
  ultimately have "b - a \<le> v - u"
    using su sv by (simp add: h_def)
  then show ?thesis
    by (simp add: u_def v_def)
qed

lemma deg_factor_ge: "45 \<le> 180 / pi"
  using pi_less_4 by (simp add: field_simps)

lemma sin_four_neg: "sin (4 :: real) < 0"
  using pi_less_4 pi_ge_three by (intro sin_lt_zero) simp_all

section \<open>Slicing, export and formatting\<close>

lemma take_every_drop_step:
  assumes "i < length xs" "0 < k"
  shows "take_every k (drop i xs) = xs ! i # take_every k (drop (i + k) xs)"
proof -
  have "drop i xs = xs ! i # drop (Suc i) xs"
    using assms(1) by (simp add: Cons_nth_drop_Suc)
  moreover have "k - 1 + Suc i = i + k"
    using assms(2) by simp
  ultimately show ?thesis
    by (simp add: add.commute)
qed

lemma take_every_drop_end:
  assumes "length xs \<le> i"
  shows "take_every k (drop i xs) = []"
  using assms by simp

lemma slice_thousand:
  assumes "length xs = 1000"
  shows "slice_from_step 1 200 xs = [xs ! 1, xs ! 201, xs ! 401, xs ! 601, xs ! 801]"
  using assms by (simp add: slice_from_step_def take_every_drop_step take_every_drop_end)

lemma export_subsample_eq:
  "export_to_kml str doc x1 y1 x2 y2 label1 label2 True
   = export_to_kml str doc x1 y1 (map_option (slice_from_step 1 200) x2)
       (map_option (slice_from_step 1 200) y2) label1 label2 False"
  by (simp add: export_to_kml_def Let_def split: option.splits sum.splits prod.splits)

lemma export_to_kml_ok:
  assumes "3 \<le> length (names doc)" "2 \<le> length (coordinates doc)"
  shows "export_to_kml str doc (Some xs1) (Some ys1) (Some xs2) (Some ys2) label1 label2 subsample
    = Inr \<lparr>names = (names doc)[1 := label1, 2 := label2],
           coordinates = (coordinates doc)
             [0 := format_lat_lon str (fst (local_to_gps_coord xs1 ys1))
                     (snd (local_to_gps_coord xs1 ys1)),
              1 := format_lat_lon str
                     (fst (local_to_gps_coord
                        (if subsample then slice_from_step 1 200 xs2 else xs2)
                        (if subsample then slice_from_step 1 200 ys2 else ys2)))
                     (snd (local_to_gps_coord
                        (if subsample then slice_from_step 1 200 xs2 else xs2)
                        (if subsample then slice_from_step 1 200 ys2 else ys2)))]\<rparr>"
  using assms
  by (simp add: export_to_kml_def Let_def split: prod.splits)

lemma str_whole_digits:
  "str_whole (Fin 1) = ''1.0''" "str_whole (Fin 2) = ''2.0''"
  "str_whole (Fin 3) = ''3.0''" "str_whole (Fin 4) = ''4.0''"
  by (simp_all add: str_whole_def nat_str.simps digit_char_def)

lemma map_zip_nth:
  "map f (zip xs ys) = map (\<lambda>i. f (xs ! i, ys ! i)) [0..<min (length xs) (length ys)]"
  by (rule nth_equalityI) simp_all

section \<open>The two instances of the arithmetic\<close>

lemma exact_ops_sel:
  "fl_of_int exact_ops = of_int" "fl_add exact_ops = (+)" "fl_sub exact_ops = (-)"
  "fl_mul exact_ops = (*)" "fl_div exact_ops = (/)"
  "fl_pow exact_ops = (\<lambda>b e. if 0 < b then b powr e else b powi \<lfloor>e\<rfloor>)"
  "fl_sin exact_ops = sin" "fl_cos exact_ops = cos" "fl_arcsin exact_ops = arcsin"
  "fl_rad2deg exact_ops = (\<lambda>x. x * (180 / pi))"
  by (simp_all add: exact_ops_def)

lemma exact_ops_np:
  "np_div_fl exact_ops = np_div" "np_arcsin_fl exact_ops = np_arcsin"
  "py_pow_fl exact_ops = py_pow"
  by (intro ext; simp add: np_div_fl_def np_div_def np_arcsin_fl_def np_arcsin_def
      py_pow_fl_def py_pow_def exact_ops_sel split: npfloat.splits)+

lemma exact_ops_params:
  "compute_gps_conversion_params_fl exact_ops = compute_gps_conversion_params"
  unfolding compute_gps_conversion_params_fl_def compute_gps_conversion_params_def
    exact_ops_np exact_ops_sel np_add_def np_mul_def np_sin_def np_cos_def
  by (rule refl)

lemma exact_ops_forward: "gps_to_local_coord_fl exact_ops = gps_to_local_coord"
  unfolding gps_to_local_coord_fl_def gps_to_local_coord_def exact_ops_params
    exact_ops_sel np_sub_def np_mul_def np_sin_def np_cos_def
  by (rule refl)

lemma exact_ops_inverse: "local_to_gps_coord_fl exact_ops = local_to_gps_coord"
  unfolding local_to_gps_coord_fl_def local_to_gps_coord_def exact_ops_params
    exact_ops_np exact_ops_sel np_sub_def np_add_def np_mul_def np_cos_def np_rad2deg_def
  by (rule refl)

lemma close_to_skew:
  assumes "1 / 10 ^ 13 \<le> u"
  shows "close_to u (skew x) x"
proof -
  define e :: real where "e = 1 / 10 ^ 13"
  have e0: "0 \<le> e"
    by (simp add: e_def)
  have u0: "0 \<le> u"
    using assms by simp
  have "skew x = x * (1 + e)"
    by (simp only: skew_def e_def)
  then have "skew x - x = e * x"
    by (simp add: algebra_simps)
  then have "\<bar>skew x - x\<bar> = e * \<bar>x\<bar>"
    using e0 by (simp only: abs_mult abs_of_nonneg)
  also have "\<dots> \<le> u * \<bar>x\<bar>"
    using assms by (intro mult_right_mono) (simp_all add: e_def)
  also have "\<dots> \<le> u * (\<bar>x\<bar> + 1)"
    using u0 by (intro mult_left_mono) simp_all
  finally show ?thesis
    by (simp add: close_to_def)
qed

lemma accurate_skewed_ops: "accurate (1 / 10 ^ 12) skewed_ops"
  unfolding accurate_def skewed_ops_def by (simp add: close_to_skew)

lemma accurate_exact_ops: "accurate 0 exact_ops"
  unfolding accurate_def exact_ops_def by (simp add: close_to_def)

section \<open>Sine and arcsine: how fast they change\<close>

lemma sin_cubic: "\<bar>sin x - x\<bar> \<le> \<bar>x\<bar> ^ 3 / 6" for x :: real
  using Maclaurin_sin_bound [of x 3]
  by (simp add: sin_coeff_def numeral_3_eq_3 lessThan_Suc)

lemma sin_lipschitz: "\<bar>sin a - sin b\<bar> \<le> \<bar>a - b\<bar>" for a b :: real
proof -
  have "\<bar>sin ((a - b) / 2)\<bar> * \<bar>cos ((a + b) / 2)\<bar> \<le> \<bar>(a - b) / 2\<bar> * 1"
    by (intro mult_mono abs_sin_x_le_abs_x) simp_all
  moreover have "sin a - sin b = 2 * sin ((a - b) / 2) * cos ((a + b) / 2)"
    by (rule sin_diff_sin)
  ultimately show ?thesis
    by (simp add: abs_mult)
qed

lemma cos_ge_half:
  assumes "\<bar>x\<bar> \<le> pi / 3"
  shows "1 / 2 \<le> cos x"
proof -
  have "cos (pi / 3) \<le> cos \<bar>x\<bar>"
    using assms by (intro cos_monotone_0_pi_le) simp_all
  then show ?thesis
    by (simp add: cos_60)
qed

lemma sin_lower:
  assumes "0 \<le> (h :: real)" "h \<le> 4 / 3"
  shows "7 / 10 * h \<le> sin h"
proof -
  have "h * h \<le> (4 / 3) * (4 / 3)"
    using assms by (intro mult_mono) simp_all
  then have "h * (h * h) \<le> h * (16 / 9)"
    using assms(1) by (intro mult_left_mono) simp_all
  moreover have "h ^ 3 = h * (h * h)"
    by (simp add: power3_eq_cube)
  ultimately have "h ^ 3 / 6 \<le> 3 / 10 * h"
    using assms(1) by linarith
  moreover have "\<bar>sin h - h\<bar> \<le> h ^ 3 / 6"
    using sin_cubic [of h] assms(1) by (simp only: abs_of_nonneg)
  ultimately show ?thesis
    by linarith
qed

lemma arcsin_third:
  assumes "\<bar>q\<bar> \<le> 51 / 100"
  shows "\<bar>arcsin q\<bar> \<le> pi / 3"
proof -
  have s: "51 / 100 \<le> sqrt 3 / 2"
  proof -
    have "(51 / 50 :: real) \<le> sqrt 3"
      by (rule real_le_rsqrt) (simp add: power2_eq_square)
    then show ?thesis
      by simp
  qed
  have t: "arcsin (sqrt 3 / 2) = pi / 3"
    using arcsin_sin [of "pi / 3"] by (simp add: sin_60)
  have "sqrt 3 / 2 \<le> 1"
    using sin_le_one [of "pi / 3"] by (simp only: sin_60)
  moreover have "0 \<le> sqrt 3 / 2"
    by simp
  ultimately have r: "- 1 \<le> sqrt 3 / 2" "- 1 \<le> - (sqrt 3 / 2)" "- (sqrt 3 / 2) \<le> 1"
    by linarith+
  have b: "- 1 \<le> q" "q \<le> sqrt 3 / 2" "- (sqrt 3 / 2) \<le> q" "q \<le> 1"
    using assms s \<open>sqrt 3 / 2 \<le> 1\<close> by linarith+
  have "arcsin q \<le> arcsin (sqrt 3 / 2)"
    using b(1,2) \<open>sqrt 3 / 2 \<le> 1\<close> by (rule arcsin_le_arcsin)
  moreover have "arcsin (- (sqrt 3 / 2)) \<le> arcsin q"
    using r(2) b(3,4) by (rule arcsin_le_arcsin)
  moreover have "arcsin (- (sqrt 3 / 2)) = - arcsin (sqrt 3 / 2)"
    using r(1) \<open>sqrt 3 / 2 \<le> 1\<close> by (rule arcsin_minus)
  ultimately show ?thesis
    unfolding t by linarith
qed

lemma arcsin_lipschitz_le:
  assumes "\<bar>p\<bar> \<le> 51 / 100" "\<bar>q\<bar> \<le> 51 / 100" "q \<le> p"
  shows "arcsin p - arcsin q \<le> 3 * (p - q)"
proof -
  define u where "u = arcsin q"
  define v where "v = arcsin p"
  define h where "h = (v - u) / 2"
  have ub: "\<bar>u\<bar> \<le> pi / 3" and vb: "\<bar>v\<bar> \<le> pi / 3"
    using arcsin_third assms(1,2) by (simp_all add: u_def v_def)
  have uv: "u \<le> v"
    unfolding u_def v_def using assms by (intro arcsin_le_arcsin) simp_all
  have su: "sin u = q" and sv: "sin v = p"
    using assms(1,2) by (simp_all add: u_def v_def)
  have h0: "0 \<le> h" and h1: "h \<le> 4 / 3"
    using uv ub vb pi_less_4 by (simp_all add: h_def)
  have "\<bar>(v + u) / 2\<bar> \<le> pi / 3"
    using ub vb by argo
  then have m: "1 / 2 \<le> cos ((v + u) / 2)"
    by (rule cos_ge_half)
  have "(7 / 10 * h) * (1 / 2) \<le> sin h * cos ((v + u) / 2)"
    using sin_lower [OF h0 h1] m h0 by (intro mult_mono) simp_all
  moreover have "sin v - sin u = 2 * sin h * cos ((v + u) / 2)"
    unfolding h_def by (rule sin_diff_sin)
  ultimately have "7 / 20 * (v - u) \<le> p - q"
    using su sv by (simp add: h_def)
  then show ?thesis
    using uv by (simp add: u_def v_def)
qed

lemma arcsin_lipschitz:
  assumes "\<bar>p\<bar> \<le> 51 / 100" "\<bar>q\<bar> \<le> 51 / 100"
  shows "\<bar>arcsin p - arcsin q\<bar> \<le> 3 * \<bar>p - q\<bar>"
proof (cases "q \<le> p")
  case True
  have "arcsin q \<le> arcsin p"
    using assms True by (intro arcsin_le_arcsin) simp_all
  then show ?thesis
    using arcsin_lipschitz_le [OF assms True] True by simp
next
  case False
  then have qp: "p \<le> q"
    by simp
  have "arcsin p \<le> arcsin q"
    using assms qp by (intro arcsin_le_arcsin) simp_all
  then show ?thesis
    using arcsin_lipschitz_le [OF assms(2,1) qp] qp by simp
qed

section \<open>Errors of single operations and of their compositions\<close>

lemma close_to_abs:
  assumes "close_to u a b" "0 \<le> u" "\<bar>b\<bar> + 1 \<le> M" "M \<le> 10 ^ 30"
  shows "\<bar>a - b\<bar> \<le> u * M"
proof -
  have "\<bar>b\<bar> \<le> 10 ^ 30"
    using assms(3,4) by simp
  then have "\<bar>a - b\<bar> \<le> u * (\<bar>b\<bar> + 1)"
    using assms(1) by (simp add: close_to_def)
  also have "\<dots> \<le> u * M"
    using assms(2,3) by (rule mult_left_mono [rotated])
  finally show ?thesis .
qed

lemma close_to_near:
  assumes "close_to u a b" "0 \<le> u" "1 / 2 \<le> b" "b \<le> 10 ^ 30" "3 * u \<le> r"
  shows "near r a b"
proof -
  have b0: "0 < b"
    using assms(3) by simp
  have "\<bar>a - b\<bar> \<le> u * (\<bar>b\<bar> + 1)"
    using assms(1,4) b0 by (simp add: close_to_def)
  also have "\<dots> \<le> u * (b + 2 * b)"
    using assms(2,3) b0 by (intro mult_left_mono) simp_all
  finally have ab: "\<bar>a - b\<bar> \<le> 3 * u * b"
    by simp
  have "3 * u * b \<le> r * b"
    using assms(5) b0 by (intro mult_right_mono) simp_all
  with ab have "b - r * b \<le> a" "a \<le> b + r * b"
    by linarith+
  then show ?thesis
    using b0 by (simp add: near_def left_diff_distrib distrib_right)
qed

lemma near_pos: "near r a b \<Longrightarrow> r < 1 \<Longrightarrow> 0 < a"
proof -
  assume n: "near r a b" and r: "r < 1"
  then have "0 < (1 - r) * b"
    by (simp add: near_def)
  then show "0 < a"
    using n by (simp add: near_def)
qed

lemma near_weaken: "near r a b \<Longrightarrow> r \<le> r' \<Longrightarrow> near r' a b"
proof -
  assume n: "near r a b" and r: "r \<le> r'"
  then have "r * b \<le> r' * b"
    by (intro mult_right_mono) (simp_all add: near_def)
  moreover have "0 < b" "b - r * b \<le> a" "a \<le> b + r * b"
    using n by (simp_all add: near_def left_diff_distrib distrib_right)
  ultimately have "b - r' * b \<le> a" "a \<le> b + r' * b"
    by linarith+
  then show ?thesis
    using \<open>0 < b\<close> by (simp add: near_def left_diff_distrib distrib_right)
qed

lemma near_add: "near r a a' \<Longrightarrow> near r b b' \<Longrightarrow> near r (a + b) (a' + b')"
  by (simp add: near_def algebra_simps)

lemma near_mult:
  assumes "near r1 a a'" "near r2 b b'" "0 \<le> r1" "r1 \<le> 1" "0 \<le> r2" "r2 \<le> 1"
    and "r1 + r2 + r1 * r2 \<le> r"
  shows "near r (a * b) (a' * b')"
proof -
  have pa: "0 < a'" and pb: "0 < b'"
    using assms(1,2) by (simp_all add: near_def)
  have ab: "0 < a' * b'"
    using pa pb by simp
  have la: "(1 - r1) * a' \<le> a" "a \<le> (1 + r1) * a'"
    and lb: "(1 - r2) * b' \<le> b" "b \<le> (1 + r2) * b'"
    using assms(1,2) by (simp_all add: near_def)
  have na: "0 \<le> (1 - r1) * a'" and nb: "0 \<le> (1 - r2) * b'"
    using assms(4,6) pa pb by simp_all
  have a0: "0 \<le> a"
    using na la(1) by (rule order_trans)
  have b0: "0 \<le> b"
    using nb lb(1) by (rule order_trans)
  have "0 \<le> (1 + r1) * a'"
    using a0 la(2) by (rule order_trans)
  then have up: "a * b \<le> ((1 + r1) * a') * ((1 + r2) * b')"
    using la(2) lb(2) b0 by (intro mult_mono)
  have lo: "((1 - r1) * a') * ((1 - r2) * b') \<le> a * b"
    using la(1) lb(1) na nb a0 by (intro mult_mono)
  define k where "k = a' * b'"
  have k0: "0 < k"
    using ab by (simp add: k_def)
  have e1: "((1 + r1) * a') * ((1 + r2) * b') = (1 + (r1 + r2 + r1 * r2)) * k"
    by (simp add: k_def algebra_simps)
  have e2: "((1 - r1) * a') * ((1 - r2) * b') = (1 - r1 - r2 + r1 * r2) * k"
    by (simp add: k_def algebra_simps)
  have w1: "(1 + (r1 + r2 + r1 * r2)) * k \<le> (1 + r) * k"
    using assms(7) k0 by (intro mult_right_mono) simp_all
  have "0 \<le> r1 * r2"
    using assms(3,5) by simp
  then have "1 - r \<le> 1 - r1 - r2 + r1 * r2"
    using assms(7) by linarith
  then have w2: "(1 - r) * k \<le> (1 - r1 - r2 + r1 * r2) * k"
    using k0 by (intro mult_right_mono) simp_all
  show ?thesis
    unfolding near_def k_def [symmetric]
    using k0 up lo e1 e2 w1 w2 by linarith
qed

lemma near_trans:
  assumes "near r1 a b" "near r2 b c" "0 \<le> r1" "r1 \<le> 1" "0 \<le> r2" "r2 \<le> 1"
    and "r1 + r2 + r1 * r2 \<le> r"
  shows "near r a c"
proof -
  have one: "near r1 (a / b) 1"
  proof -
    have b0: "0 < b"
      using assms(1) by (simp add: near_def)
    then show ?thesis
      using assms(1) by (simp add: near_def field_simps)
  qed
  have "near r ((a / b) * b) (1 * c)"
    using one assms(2-7) by (rule near_mult)
  moreover have "b \<noteq> 0"
    using assms(1) by (auto simp: near_def)
  ultimately show ?thesis
    by simp
qed

lemma accurateD:
  assumes "accurate u ops"
  shows "0 \<le> u"
    and "close_to u (fl_of_int ops n) (of_int n)"
    and "close_to u (fl_add ops a b) (a + b)"
    and "close_to u (fl_sub ops a b) (a - b)"
    and "close_to u (fl_mul ops a b) (a * b)"
    and "b \<noteq> 0 \<Longrightarrow> close_to u (fl_div ops a b) (a / b)"
    and "0 < b \<Longrightarrow> close_to u (fl_pow ops b e) (b powr e)"
    and "\<bar>a\<bar> \<le> 4 \<Longrightarrow> close_to u (fl_sin ops a) (sin a)"
    and "\<bar>a\<bar> \<le> 4 \<Longrightarrow> close_to u (fl_cos ops a) (cos a)"
    and "\<bar>a\<bar> \<le> 1 \<Longrightarrow> close_to u (fl_arcsin ops a) (arcsin a)"
    and "close_to u (fl_rad2deg ops a) (a * (180 / pi))"
  using assms unfolding accurate_def by blast+

lemma near_bounds:
  assumes "near r a b"
  shows "0 < b" "(1 - r) * b \<le> a" "a \<le> (1 + r) * b"
  using assms by (simp_all add: near_def)

lemma near_powr:
  assumes "near r a a'" "0 \<le> p" "p \<le> 2" "0 \<le> r" "r \<le> 1 / 2"
  shows "near (3 * r) (a powr p) (a' powr p)"
proof -
  note b = near_bounds [OF assms(1)]
  define k where "k = a' powr p"
  have k0: "0 < k"
    using b(1) by (simp add: k_def)
  have lo0: "0 \<le> (1 - r) * a'"
    using assms(5) b(1) by simp
  have a0: "0 \<le> a"
    using lo0 b(2) by (rule order_trans)
  have rr: "r * r \<le> r"
    using assms(4,5) mult_left_mono [of r 1 r] by simp
  have "a powr p \<le> ((1 + r) * a') powr p"
    using assms(2) a0 b(3) by (rule powr_mono2)
  also have "\<dots> = (1 + r) powr p * k"
    by (simp add: powr_mult k_def)
  also have "\<dots> \<le> (1 + r) powr 2 * k"
    using assms(3,4) k0 by (intro mult_right_mono powr_mono) simp_all
  also have "(1 + r) powr 2 = 1 + 2 * r + r * r"
    using assms(4) by (simp add: power2_eq_square algebra_simps)
  finally have up: "a powr p \<le> (1 + 2 * r + r * r) * k" .
  have "(1 - r) powr 2 * k \<le> (1 - r) powr p * k"
    using assms(3,4,5) k0 by (intro mult_right_mono powr_mono') simp_all
  also have "\<dots> = ((1 - r) * a') powr p"
    by (simp add: powr_mult k_def)
  also have "\<dots> \<le> a powr p"
    using assms(2) lo0 b(2) by (rule powr_mono2)
  finally have "(1 - r) powr 2 * k \<le> a powr p" .
  moreover have "(1 - r) powr 2 = 1 - 2 * r + r * r"
    using assms(5) by (simp add: power2_eq_square algebra_simps)
  ultimately have lo: "(1 - 2 * r + r * r) * k \<le> a powr p"
    by simp
  have "(1 + 2 * r + r * r) * k \<le> (1 + 3 * r) * k"
    using rr k0 by (intro mult_right_mono) simp_all
  moreover have "(1 - 3 * r) * k \<le> (1 - 2 * r + r * r) * k"
    using assms(4) k0 by (intro mult_right_mono) simp_all
  ultimately show ?thesis
    unfolding near_def k_def [symmetric] using k0 up lo by linarith
qed

lemma near_rounded:
  assumes "close_to u a b" "near r b c" "u \<le> 1 / 3000" "0 \<le> u" "0 \<le> r" "r \<le> 1 / 2"
    and "r + 2 / 1000 \<le> r'" "1 \<le> c" "c \<le> 10 ^ 29"
  shows "near r' a c"
proof -
  note n = near_bounds [OF assms(2)]
  have lo: "c - r * c \<le> b" and hi: "b \<le> c + r * c"
    using n(2,3) by (simp_all add: left_diff_distrib distrib_right)
  have rc: "r * c \<le> 1 / 2 * c"
    using assms(6,8) by (intro mult_right_mono) simp_all
  have cu: "c \<le> 100000000000000000000000000000"
    using assms(9) by simp
  have bl: "1 / 2 \<le> b"
    using lo rc assms(8) by linarith
  have bu: "b \<le> 1000000000000000000000000000000"
    using hi rc cu assms(8) by linarith
  have "near (1 / 1000) a b"
    using assms(1,4) _ _ _
  proof (rule close_to_near)
    show "1 / 2 \<le> b"
      by (rule bl)
    show "b \<le> 10 ^ 30"
      using bu by simp
    show "3 * u \<le> 1 / 1000"
      using assms(3) by simp
  qed
  moreover have "1 / 1000 * r \<le> 1 / 1000"
    using assms(5,6) by simp
  then have "1 / 1000 + r + 1 / 1000 * r \<le> r'"
    using assms(7) by linarith
  ultimately show ?thesis
    using assms(2,5,6) by (intro near_trans [of "1 / 1000" a b r c r']) simp_all
qed

section \<open>The rounded parameters\<close>

lemma sin_lat0_ge: "1 / 2 \<le> sin lat0"
proof -
  have "7 / 10 * lat0 \<le> sin lat0"
    by (rule sin_lower) (simp_all add: lat0_def)
  then show ?thesis
    by (simp add: lat0_def)
qed

lemma cos_lat0_ge: "1 / 2 \<le> cos lat0"
  using pi_ge_three by (intro cos_ge_half) (simp add: lat0_def)

lemma curv_base_le: "curv_base \<le> 6378135\<^sup>2"
proof -
  have "curv_base = 6378135\<^sup>2 - (6378135\<^sup>2 - 6356750\<^sup>2) * (sin lat0)\<^sup>2"
    unfolding curv_base_def by (simp add: cos_squared_eq algebra_simps)
  moreover have "0 \<le> (6378135\<^sup>2 - 6356750\<^sup>2) * (sin lat0)\<^sup>2"
    by simp
  ultimately show ?thesis
    by linarith
qed

lemma curv_base_powr_le:
  "curv_base powr (3 / 2) \<le> 6378135 ^ 3" "curv_base powr (1 / 2) \<le> 6378135"
proof -
  have e: "(6378135\<^sup>2 :: real) powr a = 6378135 powr (2 * a)" for a :: real
  proof -
    have "(6378135\<^sup>2 :: real) = 6378135 powr 2"
      by simp
    then show ?thesis
      by (simp only: powr_powr)
  qed
  have "curv_base powr (3 / 2) \<le> (6378135\<^sup>2 :: real) powr (3 / 2)"
    using curv_base_le curv_base_pos by (intro powr_mono2) simp_all
  then show "curv_base powr (3 / 2) \<le> 6378135 ^ 3"
    unfolding e by simp
  have "curv_base powr (1 / 2) \<le> (6378135\<^sup>2 :: real) powr (1 / 2)"
    using curv_base_le curv_base_pos by (intro powr_mono2) simp_all
  then show "curv_base powr (1 / 2) \<le> 6378135"
    unfolding e by simp
qed

lemma squared_term_fl:
  assumes "accurate u ops" "u \<le> 1 / 10 ^ 12" "2 \<le> (of_int n :: real)"
    and "(of_int n :: real) \<le> 10 ^ 7" "1 / 2 \<le> t" "t \<le> 1" "close_to u f t"
  shows "0 < fl_mul ops (fl_of_int ops n) f"
    and "near (17 / 1000) (fl_pow ops (fl_mul ops (fl_of_int ops n) f) 2) ((of_int n * t)\<^sup>2)"
proof -
  note acc = accurateD [OF assms(1)]
  have u3: "u \<le> 1 / 3000" and u4: "3 * u \<le> 1 / 1000"
    using assms(2) by simp_all
  define c where "c = of_int n * t"
  have "2 * (1 / 2) \<le> of_int n * t"
    using assms(3,5) by (intro mult_mono) simp_all
  then have c1: "1 \<le> c"
    by (simp add: c_def)
  have "of_int n * t \<le> 10 ^ 7 * 1"
    using assms(3,4,5,6) by (intro mult_mono) simp_all
  then have c7: "c \<le> 10 ^ 7"
    by (simp add: c_def)
  have ni: "near (1 / 1000) (fl_of_int ops n) (of_int n)"
    using acc(2) acc(1) _ _ u4 by (rule close_to_near) (use assms(3,4) in simp_all)
  have nf: "near (1 / 1000) f t"
    using assms(7) acc(1) _ _ u4 by (rule close_to_near) (use assms(5,6) in simp_all)
  have nm: "near (3 / 1000) (fl_of_int ops n * f) c"
    unfolding c_def using ni nf by (rule near_mult) simp_all
  have np: "near (5 / 1000) (fl_mul ops (fl_of_int ops n) f) c"
    using acc(5) nm u3 acc(1) by (rule near_rounded) (use c1 c7 in simp_all)
  show p0: "0 < fl_mul ops (fl_of_int ops n) f"
    using np by (rule near_pos) simp
  have "near (3 * (5 / 1000)) (fl_mul ops (fl_of_int ops n) f powr 2) (c powr 2)"
    using np by (rule near_powr) simp_all
  then have nq: "near (15 / 1000) (fl_mul ops (fl_of_int ops n) f powr 2) (c\<^sup>2)"
    using c1 by simp
  have s1: "1 \<le> c\<^sup>2"
    using c1 by simp
  have "c\<^sup>2 \<le> (10 ^ 7)\<^sup>2"
    using c1 c7 by (intro power_mono) simp_all
  then have s2: "c\<^sup>2 \<le> 10 ^ 29"
    by simp
  have "near (17 / 1000) (fl_pow ops (fl_mul ops (fl_of_int ops n) f) 2) (c\<^sup>2)"
    using acc(7) [OF p0] nq u3 acc(1) _ _ _ s1 s2 by (rule near_rounded) simp_all
  then show "near (17 / 1000) (fl_pow ops (fl_mul ops (fl_of_int ops n) f) 2)
      ((of_int n * t)\<^sup>2)"
    by (simp only: c_def)
qed

lemma base_fl_near:
  assumes "accurate u ops" "u \<le> 1 / 10 ^ 12"
  shows "near (19 / 1000) (base_fl ops) curv_base"
    and "0 < fl_mul ops (fl_of_int ops 6378135) (fl_cos ops lat0)"
    and "0 < fl_mul ops (fl_of_int ops 6356750) (fl_sin ops lat0)"
proof -
  note acc = accurateD [OF assms(1)]
  have u3: "u \<le> 1 / 3000"
    using assms(2) by simp
  have l4: "\<bar>lat0\<bar> \<le> 4"
    by (simp add: lat0_def)
  have c: "0 < fl_mul ops (fl_of_int ops 6378135) (fl_cos ops lat0)"
    "near (17 / 1000) (fl_pow ops (fl_mul ops (fl_of_int ops 6378135) (fl_cos ops lat0)) 2)
       ((of_int 6378135 * cos lat0)\<^sup>2)"
    by (rule squared_term_fl [OF assms _ _ cos_lat0_ge _ acc(9) [OF l4]]; simp)+
  have s: "0 < fl_mul ops (fl_of_int ops 6356750) (fl_sin ops lat0)"
    "near (17 / 1000) (fl_pow ops (fl_mul ops (fl_of_int ops 6356750) (fl_sin ops lat0)) 2)
       ((of_int 6356750 * sin lat0)\<^sup>2)"
    by (rule squared_term_fl [OF assms _ _ sin_lat0_ge _ acc(8) [OF l4]]; simp)+
  show "0 < fl_mul ops (fl_of_int ops 6378135) (fl_cos ops lat0)"
    by (rule c(1))
  show "0 < fl_mul ops (fl_of_int ops 6356750) (fl_sin ops lat0)"
    by (rule s(1))
  have "near (17 / 1000)
      (fl_pow ops (fl_mul ops (fl_of_int ops 6378135) (fl_cos ops lat0)) 2
       + fl_pow ops (fl_mul ops (fl_of_int ops 6356750) (fl_sin ops lat0)) 2)
      ((of_int 6378135 * cos lat0)\<^sup>2 + (of_int 6356750 * sin lat0)\<^sup>2)"
    using c(2) s(2) by (rule near_add)
  then have n: "near (17 / 1000)
      (fl_pow ops (fl_mul ops (fl_of_int ops 6378135) (fl_cos ops lat0)) 2
       + fl_pow ops (fl_mul ops (fl_of_int ops 6356750) (fl_sin ops lat0)) 2)
      curv_base"
    by (simp add: curv_base_def)
  have b1: "1 \<le> curv_base"
    using curv_base_ge by simp
  have b2: "curv_base \<le> 10 ^ 29"
    using curv_base_le by simp
  show "near (19 / 1000) (base_fl ops) curv_base"
    unfolding base_fl_def using acc(3) n u3 acc(1) _ _ _ b1 b2 by (rule near_rounded) simp_all
qed

lemma radius_fl:
  assumes "accurate u ops" "u \<le> 1 / 10 ^ 12" "near (19 / 1000) B curv_base"
    and "0 \<le> p" "p \<le> 2" "1 \<le> lo" "lo \<le> curv_base powr p" "curv_base powr p \<le> hi"
    and "hi \<le> 10 ^ 28" "106 / 100 * hi \<le> of_int n" "(of_int n :: real) \<le> 10 ^ 28"
  shows "0 < fl_pow ops B p"
    and "998 / 1000 * (of_int n / (106 / 100 * hi))
           \<le> fl_div ops (fl_of_int ops n) (fl_pow ops B p)"
    and "fl_div ops (fl_of_int ops n) (fl_pow ops B p)
           \<le> 1003 / 1000 * (of_int n / (94 / 100 * lo))"
proof -
  note acc = accurateD [OF assms(1)]
  have u3: "u \<le> 1 / 3000" and u4: "3 * u \<le> 1 / 1000"
    using assms(2) by simp_all
  define N where "N = (of_int n :: real)"
  define Q where "Q = fl_pow ops B p"
  define N' where "N' = fl_of_int ops n"
  have hi1: "1 \<le> hi"
    using assms(6,7,8) by linarith
  have N1: "1 \<le> N" and N28: "N \<le> 10000000000000000000000000000"
    using assms(10,11) hi1 by (simp_all add: N_def)
  have N0: "0 < N"
    using N1 by simp
  have B0: "0 < B"
    using assms(3) by (rule near_pos) simp
  have "near (3 * (19 / 1000)) (B powr p) (curv_base powr p)"
    using assms(3,4,5) by (rule near_powr) simp_all
  then have "near (57 / 1000) (B powr p) (curv_base powr p)"
    by simp
  with acc(7) [OF B0] have nq: "near (6 / 100) Q (curv_base powr p)"
    unfolding Q_def using u3 acc(1)
    by (rule near_rounded) (use assms(6,7,8,9) in simp_all)
  note q = near_bounds [OF nq]
  have "(1 - 6 / 100) * lo \<le> (1 - 6 / 100) * curv_base powr p"
    using assms(7) by (intro mult_left_mono) simp_all
  then have ql: "94 / 100 * lo \<le> Q"
    using q(2) by simp
  have "(1 + 6 / 100) * curv_base powr p \<le> (1 + 6 / 100) * hi"
    using assms(8) by (intro mult_left_mono) simp_all
  then have qh: "Q \<le> 106 / 100 * hi"
    using q(3) by simp
  have Q0: "0 < Q"
    using ql assms(6) by simp
  then show "0 < fl_pow ops B p"
    by (simp add: Q_def)
  have "near (1 / 1000) N' N"
    unfolding N'_def N_def using acc(2) acc(1) _ _ u4
    by (rule close_to_near) (use N1 N28 in \<open>simp_all add: N_def\<close>)
  note m = near_bounds [OF this]
  have nl: "999 / 1000 * N \<le> N'" and nh: "N' \<le> 1001 / 1000 * N"
    using m(2,3) by simp_all
  have N'0: "0 < N'"
    using nl N0 by simp
  define X where "X = N' / Q"
  define Y where "Y = N / (106 / 100 * hi)"
  define Z where "Z = N / (94 / 100 * lo)"
  have Y1: "1 \<le> Y"
    unfolding Y_def using assms(10) hi1 by (simp add: N_def)
  have "N / (94 / 100 * lo) \<le> 10000000000000000000000000000 / (94 / 100 * 1)"
    using N28 N0 assms(6) by (intro frac_le) simp_all
  then have Z28: "Z \<le> 11000000000000000000000000000"
    by (simp add: Z_def)
  have Z0: "0 \<le> Z"
    using N0 assms(6) by (simp add: Z_def)
  have X0: "0 < X"
    using N'0 Q0 by (simp add: X_def)
  have "999 / 1000 * N / (106 / 100 * hi) \<le> X"
    unfolding X_def using nl qh Q0 N0 by (intro frac_le) simp_all
  then have xl: "999 / 1000 * Y \<le> X"
    by (simp add: Y_def)
  have "X \<le> 1001 / 1000 * N / (94 / 100 * lo)"
    unfolding X_def using nh ql N'0 assms(6) by (intro frac_le) simp_all
  then have xh: "X \<le> 1001 / 1000 * Z"
    by (simp add: Z_def)
  have Xl: "1 / 2 \<le> X"
    using xl Y1 by linarith
  have Xu: "X \<le> 1000000000000000000000000000000"
    using xh Z28 by linarith
  have "close_to u (fl_div ops N' Q) X"
    unfolding X_def using Q0 by (intro acc(6)) simp
  then have "near (1 / 1000) (fl_div ops N' Q) X"
    using acc(1) _ _ u4 by (rule close_to_near) (use Xl Xu in simp_all)
  note r = near_bounds [OF this]
  have r2: "999 / 1000 * X \<le> fl_div ops N' Q" and r3: "fl_div ops N' Q \<le> 1001 / 1000 * X"
    using r(2,3) by simp_all
  have Y0: "0 \<le> Y"
    using Y1 by simp
  have "998 / 1000 * Y \<le> fl_div ops N' Q"
    using xl r2 Y0 by linarith
  then show "998 / 1000 * (of_int n / (106 / 100 * hi))
      \<le> fl_div ops (fl_of_int ops n) (fl_pow ops B p)"
    by (simp only: N_def N'_def Q_def Y_def)
  have "fl_div ops N' Q \<le> 1003 / 1000 * Z"
    using xh r3 Z0 by linarith
  then show "fl_div ops (fl_of_int ops n) (fl_pow ops B p)
      \<le> 1003 / 1000 * (of_int n / (94 / 100 * lo))"
    by (simp only: N_def N'_def Q_def Z_def)
qed

section \<open>The rounded conversions of one element\<close>

lemma abs_mult_le:
  fixes a b :: real
  assumes "\<bar>a\<bar> \<le> A" "\<bar>b\<bar> \<le> B"
  shows "\<bar>a * b\<bar> \<le> A * B"
proof -
  have "\<bar>a\<bar> * \<bar>b\<bar> \<le> A * B"
    using assms by (intro mult_mono) simp_all
  then show ?thesis
    by (simp add: abs_mult)
qed

lemma abs_div_le:
  fixes a :: real
  assumes "\<bar>a\<bar> \<le> e" "L \<le> D" "0 < L"
  shows "\<bar>a / D\<bar> \<le> e / L"
proof -
  have "\<bar>a\<bar> / D \<le> e / L"
    using assms by (intro frac_le) simp_all
  moreover have "0 < D"
    using assms(2,3) by linarith
  ultimately show ?thesis
    by simp
qed

lemma mul_step:
  assumes "accurate u ops" "\<bar>s - w\<bar> \<le> e" "\<bar>w\<bar> \<le> W" "W + e \<le> W'" "0 \<le> R" "R \<le> M"
    and "W' * M + 1 \<le> 10 ^ 30"
  shows "\<bar>fl_mul ops s R - w * R\<bar> \<le> e * M + u * (W' * M + 1)"
proof -
  note acc = accurateD [OF assms(1)]
  have sb: "\<bar>s\<bar> \<le> W'"
    using assms(2,3,4) by linarith
  have "\<bar>s * R\<bar> \<le> W' * M"
    using sb assms(5,6) by (intro abs_mult_le) simp_all
  then have "\<bar>s * R\<bar> + 1 \<le> W' * M + 1"
    by simp
  with acc(5) acc(1) have a: "\<bar>fl_mul ops s R - s * R\<bar> \<le> u * (W' * M + 1)"
    using assms(7) by (rule close_to_abs)
  have "\<bar>(s - w) * R\<bar> \<le> e * M"
    using assms(2,5,6) by (intro abs_mult_le) simp_all
  then have b: "\<bar>s * R - w * R\<bar> \<le> e * M"
    by (simp add: left_diff_distrib)
  show ?thesis
    using a b by linarith
qed

lemma sin_step:
  assumes "accurate u ops" "u \<le> 1 / 10 ^ 12" "\<bar>a - c\<bar> \<le> 1 / 2"
  shows "\<bar>fl_sin ops (fl_sub ops a c) - sin (a - c)\<bar> \<le> 4 * u"
proof -
  note acc = accurateD [OF assms(1)]
  have us: "u \<le> 1 / 1000000000000"
    using assms(2) by simp
  define t where "t = fl_sub ops a c"
  have t1: "\<bar>t - (a - c)\<bar> \<le> u * 2"
    unfolding t_def using acc(4) acc(1) by (rule close_to_abs) (use assms(3) in simp_all)
  have t4: "\<bar>t\<bar> \<le> 4"
    using t1 assms(3) us by linarith
  have "\<bar>sin t - sin (a - c)\<bar> \<le> \<bar>t - (a - c)\<bar>"
    by (rule sin_lipschitz)
  moreover have "\<bar>fl_sin ops t - sin t\<bar> \<le> u * 2"
    using acc(8) [OF t4] acc(1)
  proof (rule close_to_abs)
    have "\<bar>sin t\<bar> \<le> 1"
      by simp
    then show "\<bar>sin t\<bar> + 1 \<le> 2"
      by linarith
  qed simp
  ultimately show ?thesis
    unfolding t_def [symmetric] using t1 by linarith
qed

lemma deg_factor_le: "180 / pi \<le> 60"
  using pi_ge_three by (simp add: field_simps)

lemma back_step:
  assumes "accurate u ops" "u \<le> 1 / 10 ^ 12" "\<bar>a - v\<bar> \<le> 120 * u" "\<bar>v\<bar> \<le> 1 / 2"
    and "\<bar>c\<bar> \<le> 2"
  shows "\<bar>fl_rad2deg ops (fl_add ops a c) - (v + c) * (180 / pi)\<bar> \<le> 1 / 10 ^ 6"
proof -
  note acc = accurateD [OF assms(1)]
  define k where "k = 180 / pi"
  define b where "b = fl_add ops a c"
  have us: "u \<le> 1 / 1000000000000"
    using assms(2) by simp
  have k0: "0 \<le> k" and k60: "k \<le> 60"
    using deg_factor_le by (simp_all add: k_def)
  have "\<bar>a + c\<bar> + 1 \<le> 4"
    using us assms(3-5) by linarith
  with acc(3) acc(1) have "\<bar>b - (a + c)\<bar> \<le> u * 4"
    unfolding b_def by (rule close_to_abs) simp
  then have bv: "\<bar>b - (v + c)\<bar> \<le> 124 * u"
    using assms(3) by linarith
  have b3: "\<bar>b\<bar> \<le> 3"
    using bv us assms(4,5) by linarith
  have "\<bar>b * k\<bar> \<le> 3 * 60"
    using b3 k0 k60 by (intro abs_mult_le) simp_all
  then have "\<bar>b * k\<bar> + 1 \<le> 181"
    by simp
  with acc(11) acc(1) have g: "\<bar>fl_rad2deg ops b - b * k\<bar> \<le> u * 181"
    unfolding k_def by (rule close_to_abs) simp
  have "\<bar>(b - (v + c)) * k\<bar> \<le> (124 * u) * 60"
    using bv k0 k60 by (intro abs_mult_le) simp_all
  then have "\<bar>b * k - (v + c) * k\<bar> \<le> (124 * u) * 60"
    by (simp add: left_diff_distrib)
  then have "\<bar>fl_rad2deg ops b - (v + c) * k\<bar> \<le> 1 / 1000000"
    using g us by linarith
  then show ?thesis
    by (simp add: b_def k_def)
qed

lemma back_step_below:
  assumes "accurate u ops" "u \<le> 1 / 10 ^ 12" "a \<le> v - 7 / 10 ^ 6 + 3 * u" "\<bar>a\<bar> \<le> 3"
    and "\<bar>c\<bar> \<le> 2"
  shows "1 / 10 ^ 6 < (v + c) * (180 / pi) - fl_rad2deg ops (fl_add ops a c)"
proof -
  note acc = accurateD [OF assms(1)]
  define k where "k = 180 / pi"
  define b where "b = fl_add ops a c"
  have us: "u \<le> 1 / 1000000000000"
    using assms(2) by simp
  have a7: "a \<le> v - 7 / 1000000 + 3 * u"
    using assms(3) by simp
  have k45: "45 \<le> k" and k60: "k \<le> 60"
    using deg_factor_le deg_factor_ge by (simp_all add: k_def)
  have "\<bar>a + c\<bar> \<le> 5"
    using assms(4,5) by linarith
  then have "\<bar>a + c\<bar> + 1 \<le> 6"
    by simp
  with acc(3) acc(1) have ba: "\<bar>b - (a + c)\<bar> \<le> u * 6"
    unfolding b_def by (rule close_to_abs) simp
  have b6: "\<bar>b\<bar> \<le> 6"
    using ba us assms(4,5) by linarith
  have below: "b \<le> (v + c) - 6 / 1000000"
    using ba us a7 by linarith
  have "\<bar>b * k\<bar> \<le> 6 * 60"
    using b6 k45 k60 by (intro abs_mult_le) simp_all
  then have "\<bar>b * k\<bar> + 1 \<le> 361"
    by simp
  with acc(11) acc(1) have g: "\<bar>fl_rad2deg ops b - b * k\<bar> \<le> u * 361"
    unfolding k_def by (rule close_to_abs) simp
  have "b * k \<le> ((v + c) - 6 / 1000000) * k"
    using below k45 by (intro mult_right_mono) simp_all
  moreover have "((v + c) - 6 / 1000000) * k = (v + c) * k - 6 / 1000000 * k"
    by (simp only: left_diff_distrib)
  moreover have "6 / 1000000 * 45 \<le> 6 / 1000000 * k"
    using k45 by (intro mult_left_mono) simp_all
  ultimately have "1 / 1000000 < (v + c) * k - fl_rad2deg ops b"
    using g us by linarith
  then show ?thesis
    by (simp add: b_def k_def)
qed

lemma div_step:
  assumes "accurate u ops" "\<bar>H - w * D\<bar> \<le> e" "2000000 \<le> D" "\<bar>w\<bar> \<le> W"
    and "W + e / 2000000 \<le> 1"
  shows "\<bar>fl_div ops H D - w\<bar> \<le> e / 2000000 + u * 2"
proof -
  note acc = accurateD [OF assms(1)]
  have D0: "D \<noteq> 0"
    using assms(3) by simp
  have "\<bar>(H - w * D) / D\<bar> \<le> e / 2000000"
    using assms(2,3) by (intro abs_div_le) simp_all
  moreover have "(H - w * D) / D = H / D - w"
    using D0 by (simp add: diff_divide_distrib)
  ultimately have a: "\<bar>H / D - w\<bar> \<le> e / 2000000"
    by simp
  then have "\<bar>H / D\<bar> \<le> 1"
    using assms(4,5) by linarith
  then have "\<bar>H / D\<bar> + 1 \<le> 2"
    by simp
  with acc(6) [OF D0] acc(1) have "\<bar>fl_div ops H D - H / D\<bar> \<le> u * 2"
    by (rule close_to_abs) simp
  then show ?thesis
    using a by linarith
qed

lemma round_trip_1d:
  assumes "accurate u ops" "u \<le> 1 / 10 ^ 12" "2000000 \<le> D" "D \<le> 9000000"
    and "\<bar>F - sin d * D\<bar> \<le> 60000000 * u" "\<bar>d\<bar> \<le> 1 / 2" "\<bar>c\<bar> \<le> 2"
    and "76 \<le> off" "off \<le> 109"
  shows "- 1 \<le> fl_div ops (fl_sub ops (fl_add ops F off) off) D"
    and "fl_div ops (fl_sub ops (fl_add ops F off) off) D \<le> 1"
    and "\<bar>fl_rad2deg ops
            (fl_add ops (fl_arcsin ops (fl_div ops (fl_sub ops (fl_add ops F off) off) D)) c)
          - (d + c) * (180 / pi)\<bar> \<le> 1 / 10 ^ 6"
    and "- 1 \<le> fl_div ops (fl_sub ops F off) D \<Longrightarrow> fl_div ops (fl_sub ops F off) D \<le> 1 \<Longrightarrow>
         1 / 10 ^ 6 < (d + c) * (180 / pi)
           - fl_rad2deg ops (fl_add ops (fl_arcsin ops (fl_div ops (fl_sub ops F off) D)) c)"
proof -
  note acc = accurateD [OF assms(1)]
  have us: "u \<le> 1 / 1000000000000"
    using assms(2) by simp
  have sd: "\<bar>sin d\<bar> \<le> 1 / 2"
    using abs_sin_x_le_abs_x [of d] assms(6) by linarith
  have asd: "arcsin (sin d) = d"
    using assms(6) pi_ge_three by (intro arcsin_sin) linarith+
  have "\<bar>sin d * D\<bar> \<le> 1 / 2 * 9000000"
    using sd assms(3,4) by (intro abs_mult_le) simp_all
  then have Fb: "\<bar>F\<bar> \<le> 4500001"
    using assms(5) us by linarith
  \<comment> \<open>with the offsets\<close>
  define G where "G = fl_add ops F off"
  define H where "H = fl_sub ops G off"
  define q where "q = fl_div ops H D"
  have "\<bar>F + off\<bar> + 1 \<le> 4500200"
    using Fb assms(8,9) by linarith
  with acc(3) acc(1) have g: "\<bar>G - (F + off)\<bar> \<le> u * 4500200"
    unfolding G_def by (rule close_to_abs) simp
  then have "\<bar>G - off\<bar> + 1 \<le> 4500003"
    using Fb us by linarith
  with acc(4) acc(1) have "\<bar>H - (G - off)\<bar> \<le> u * 4500003"
    unfolding H_def by (rule close_to_abs) simp
  then have h: "\<bar>H - sin d * D\<bar> \<le> 70000000 * u"
    using g assms(5) acc(1) by linarith
  have "\<bar>q - sin d\<bar> \<le> 70000000 * u / 2000000 + u * 2"
    unfolding q_def using assms(1) h assms(3) sd by (rule div_step) (use us in simp)
  then have qs: "\<bar>q - sin d\<bar> \<le> 37 * u"
    by simp
  have qb: "\<bar>q\<bar> \<le> 51 / 100"
    using qs sd us by linarith
  then show "- 1 \<le> fl_div ops (fl_sub ops (fl_add ops F off) off) D"
    and "fl_div ops (fl_sub ops (fl_add ops F off) off) D \<le> 1"
    unfolding q_def H_def G_def by linarith+
  have "\<bar>sin d\<bar> \<le> 51 / 100"
    using sd by simp
  with qb have "\<bar>arcsin q - arcsin (sin d)\<bar> \<le> 3 * \<bar>q - sin d\<bar>"
    by (rule arcsin_lipschitz)
  then have aq: "\<bar>arcsin q - d\<bar> \<le> 111 * u"
    unfolding asd using qs by argo
  have "\<bar>arcsin q\<bar> + 1 \<le> 2"
    using aq assms(6) us by linarith
  moreover have "\<bar>q\<bar> \<le> 1"
    using qb by simp
  ultimately have "\<bar>fl_arcsin ops q - arcsin q\<bar> \<le> u * 2"
    using acc(10) acc(1) by (intro close_to_abs) simp_all
  then have "\<bar>fl_arcsin ops q - d\<bar> \<le> 120 * u"
    using aq acc(1) by linarith
  with assms(1,2) have "\<bar>fl_rad2deg ops (fl_add ops (fl_arcsin ops q) c) - (d + c) * (180 / pi)\<bar>
      \<le> 1 / 10 ^ 6"
    using assms(6,7) by (rule back_step)
  then show "\<bar>fl_rad2deg ops
            (fl_add ops (fl_arcsin ops (fl_div ops (fl_sub ops (fl_add ops F off) off) D)) c)
          - (d + c) * (180 / pi)\<bar> \<le> 1 / 10 ^ 6"
    by (simp only: q_def H_def G_def)
  \<comment> \<open>without the offsets\<close>
  define H' where "H' = fl_sub ops F off"
  define q' where "q' = fl_div ops H' D"
  define w where "w = sin d - off / D"
  have D0: "0 < D"
    using assms(3) by simp
  have od: "76 / 9000000 \<le> off / D" "off / D \<le> 109 / 2000000"
    using assms(3,4,8,9) by (intro frac_le; simp)+
  have wD: "w * D = sin d * D - off"
    using D0 by (simp add: w_def left_diff_distrib)
  have wb: "\<bar>w\<bar> \<le> 6 / 10"
    unfolding w_def using sd od by linarith
  have "\<bar>F - off\<bar> + 1 \<le> 4500200"
    using Fb assms(8,9) by linarith
  with acc(4) acc(1) have "\<bar>H' - (F - off)\<bar> \<le> u * 4500200"
    unfolding H'_def by (rule close_to_abs) simp
  then have h': "\<bar>H' - w * D\<bar> \<le> 70000000 * u"
    unfolding wD using assms(5) acc(1) by linarith
  have "\<bar>q' - w\<bar> \<le> 70000000 * u / 2000000 + u * 2"
    unfolding q'_def using assms(1) h' assms(3) wb by (rule div_step) (use us in simp)
  then have qw: "\<bar>q' - w\<bar> \<le> 37 * u"
    by simp
  have below: "q' \<le> sin d - 7 / 1000000"
    using qw od(1) us unfolding w_def by linarith
  show "1 / 10 ^ 6 < (d + c) * (180 / pi)
           - fl_rad2deg ops (fl_add ops (fl_arcsin ops (fl_div ops (fl_sub ops F off) D)) c)"
    if r: "- 1 \<le> fl_div ops (fl_sub ops F off) D" "fl_div ops (fl_sub ops F off) D \<le> 1"
  proof -
    have r': "- 1 \<le> q'" "q' \<le> 1"
      using r by (simp_all only: q'_def H'_def)
    have "q' \<le> sin d"
      using below by linarith
    with r'(1) have "sin d - q' \<le> arcsin (sin d) - arcsin q'"
      by (rule arcsin_diff_ge) simp
    then have a1: "arcsin q' \<le> d - 7 / 1000000"
      unfolding asd using below by linarith
    have a2': "\<bar>arcsin q'\<bar> \<le> 2"
      using arcsin_bounded [OF r'] pi_less_4 by linarith
    then have "\<bar>arcsin q'\<bar> + 1 \<le> 3"
      by simp
    moreover have "\<bar>q'\<bar> \<le> 1"
      using r' by linarith
    ultimately have a2: "\<bar>fl_arcsin ops q' - arcsin q'\<bar> \<le> u * 3"
      using acc(10) acc(1) by (intro close_to_abs) simp_all
    have "fl_arcsin ops q' \<le> d - 7 / 10 ^ 6 + 3 * u"
      using a1 a2 by simp
    moreover have "\<bar>fl_arcsin ops q'\<bar> \<le> 3"
      using a2 a2' us by linarith
    ultimately have "1 / 10 ^ 6 < (d + c) * (180 / pi)
        - fl_rad2deg ops (fl_add ops (fl_arcsin ops q') c)"
      using assms(1,2) assms(7) by (intro back_step_below)
    then show ?thesis
      by (simp only: q'_def H'_def)
  qed
qed

lemma radii_fl:
  assumes "accurate u ops" "u \<le> 1 / 10 ^ 12"
  shows "0 < fl_pow ops (base_fl ops) (3 / 2)" "0 < fl_pow ops (base_fl ops) (1 / 2)"
    and "5000000 \<le> r_ns_fl ops" "r_ns_fl ops \<le> 8000000"
    and "5000000 \<le> r_ew_fl ops" "r_ew_fl ops \<le> 8000000"
proof -
  note b = base_fl_near(1) [OF assms]
  have l3: "(6356750 ^ 3 :: real) \<le> curv_base powr (3 / 2)"
    using curv_base_powr_ge(1) by simp
  have h3: "curv_base powr (3 / 2) \<le> (6378135 ^ 3 :: real)"
    using curv_base_powr_le(1) by simp
  have ns: "0 < fl_pow ops (base_fl ops) (3 / 2)"
    "998 / 1000 * (of_int ((6378135 * 6356750) ^ 2) / (106 / 100 * 6378135 ^ 3))
       \<le> fl_div ops (fl_of_int ops ((6378135 * 6356750) ^ 2)) (fl_pow ops (base_fl ops) (3 / 2))"
    "fl_div ops (fl_of_int ops ((6378135 * 6356750) ^ 2)) (fl_pow ops (base_fl ops) (3 / 2))
       \<le> 1003 / 1000 * (of_int ((6378135 * 6356750) ^ 2) / (94 / 100 * 6356750 ^ 3))"
    by (rule radius_fl [where n = "(6378135 * 6356750) ^ 2" and p = "3 / 2"
          and lo = "6356750 ^ 3" and hi = "6378135 ^ 3", OF assms b _ _ _ l3 h3]; simp)+
  have ew: "0 < fl_pow ops (base_fl ops) (1 / 2)"
    "998 / 1000 * (of_int (6378135 ^ 2) / (106 / 100 * 6378135))
       \<le> fl_div ops (fl_of_int ops (6378135 ^ 2)) (fl_pow ops (base_fl ops) (1 / 2))"
    "fl_div ops (fl_of_int ops (6378135 ^ 2)) (fl_pow ops (base_fl ops) (1 / 2))
       \<le> 1003 / 1000 * (of_int (6378135 ^ 2) / (94 / 100 * 6356750))"
    by (rule radius_fl [where n = "6378135 ^ 2" and p = "1 / 2" and lo = 6356750
          and hi = 6378135, OF assms b _ _ _ curv_base_powr_ge(2) curv_base_powr_le(2)]; simp)+
  show "0 < fl_pow ops (base_fl ops) (3 / 2)"
    by (rule ns(1))
  show "0 < fl_pow ops (base_fl ops) (1 / 2)"
    by (rule ew(1))
  show "5000000 \<le> r_ns_fl ops"
    unfolding r_ns_fl_def using ns(2) by simp
  show "r_ns_fl ops \<le> 8000000"
    unfolding r_ns_fl_def using ns(3) by simp
  show "5000000 \<le> r_ew_fl ops"
    unfolding r_ew_fl_def using ew(2) by simp
  show "r_ew_fl ops \<le> 8000000"
    unfolding r_ew_fl_def using ew(3) by simp
qed

lemma params_fl_eq:
  assumes "accurate u ops" "u \<le> 1 / 10 ^ 12"
  shows "compute_gps_conversion_params_fl ops
    = (Fin (r_ns_fl ops), Fin (r_ew_fl ops), Fin lat0, Fin lon0)"
proof -
  note p = base_fl_near [OF assms]
  note r = radii_fl [OF assms]
  have B0: "0 < base_fl ops"
    using p(1) by (rule near_pos) simp
  have l1: "Fin 0.738167915410646 = Fin lat0"
    by (simp add: lat0_def)
  have l2: "Fin (- 1.46098650670922) = Fin lon0"
    by (simp add: lon0_def)
  have c: "py_pow_fl ops (Fin b) e = Fin (fl_pow ops b e)" if "0 < b" for b e
    using that by (simp add: py_pow_fl_def)
  have b: "np_lift2 (fl_add ops)
        (py_pow_fl ops (np_lift2 (fl_mul ops) (Fin (fl_of_int ops 6378135))
                          (np_lift (fl_cos ops) (Fin lat0))) 2)
        (py_pow_fl ops (np_lift2 (fl_mul ops) (Fin (fl_of_int ops 6356750))
                          (np_lift (fl_sin ops) (Fin lat0))) 2)
      = Fin (base_fl ops)"
    using p(2,3) by (simp add: np_lift_def np_lift2_def c base_fl_def)
  have d3: "np_div_fl ops (Fin n) (py_pow_fl ops (Fin (base_fl ops)) (3 / 2))
      = Fin (fl_div ops n (fl_pow ops (base_fl ops) (3 / 2)))" for n
    using r(1) by (simp add: c [OF B0] np_div_fl_def)
  have d1: "np_div_fl ops (Fin n) (py_pow_fl ops (Fin (base_fl ops)) (1 / 2))
      = Fin (fl_div ops n (fl_pow ops (base_fl ops) (1 / 2)))" for n
    using r(2) by (simp add: c [OF B0] np_div_fl_def)
  show ?thesis
    unfolding compute_gps_conversion_params_fl_def Let_def l1 l2 b d3 d1
      r_ns_fl_def r_ew_fl_def
    by (rule refl)
qed

lemma ew_cos_fl_bounds:
  assumes "accurate u ops" "u \<le> 1 / 10 ^ 12"
  shows "0 < fl_cos ops lat0" "fl_cos ops lat0 \<le> 1001 / 1000"
    and "2000000 \<le> ew_cos_fl ops" "ew_cos_fl ops \<le> 9000000"
    and "\<bar>ew_cos_fl ops - r_ew_fl ops * fl_cos ops lat0\<bar> \<le> 9000000 * u"
proof -
  note acc = accurateD [OF assms(1)]
  note r = radii_fl [OF assms]
  have us: "u \<le> 1 / 1000000000000"
    using assms(2) by simp
  have u4: "3 * u \<le> 1 / 1000"
    using assms(2) by simp
  have l4: "\<bar>lat0\<bar> \<le> 4"
    by (simp add: lat0_def)
  have "near (1 / 1000) (fl_cos ops lat0) (cos lat0)"
    using acc(9) [OF l4] acc(1) _ _ u4
  proof (rule close_to_near)
    show "1 / 2 \<le> cos lat0"
      by (rule cos_lat0_ge)
    have "cos lat0 \<le> 1"
      by simp
    then have "cos lat0 \<le> 1000000000000000000000000000000"
      by linarith
    then show "cos lat0 \<le> 10 ^ 30"
      by simp
  qed
  note n = near_bounds [OF this]
  have cl: "999 / 2000 \<le> fl_cos ops lat0"
    using n(2) cos_lat0_ge by simp
  then show c0: "0 < fl_cos ops lat0"
    by simp
  have "fl_cos ops lat0 \<le> 1001 / 1000 * cos lat0"
    using n(3) by simp
  moreover have "cos lat0 \<le> 1"
    by simp
  ultimately show cu: "fl_cos ops lat0 \<le> 1001 / 1000"
    by linarith
  define P where "P = r_ew_fl ops * fl_cos ops lat0"
  have "5000000 * (999 / 2000) \<le> P"
    unfolding P_def using r(5) cl by (intro mult_mono) simp_all
  then have pl: "2497500 \<le> P"
    by simp
  have "P \<le> 8000000 * (1001 / 1000)"
    unfolding P_def using r(5,6) cu c0 by (intro mult_mono) simp_all
  then have pu: "P \<le> 8008000"
    by simp
  have "\<bar>P\<bar> + 1 \<le> 9000000"
    using pl pu by linarith
  with acc(5) acc(1) have e: "\<bar>ew_cos_fl ops - P\<bar> \<le> u * 9000000"
    unfolding ew_cos_fl_def P_def by (rule close_to_abs) simp
  then show "\<bar>ew_cos_fl ops - r_ew_fl ops * fl_cos ops lat0\<bar> \<le> 9000000 * u"
    by (simp add: P_def)
  show "2000000 \<le> ew_cos_fl ops" "ew_cos_fl ops \<le> 9000000"
    using e pl pu us acc(1) by linarith+
qed

lemma forward_x_fl:
  assumes "accurate u ops" "u \<le> 1 / 10 ^ 12" "\<bar>lat - lat0\<bar> \<le> 1 / 2"
  shows "\<bar>fl_mul ops (fl_sin ops (fl_sub ops lat lat0)) (r_ns_fl ops)
          - sin (lat - lat0) * r_ns_fl ops\<bar> \<le> 60000000 * u"
proof -
  note acc = accurateD [OF assms(1)]
  note r = radii_fl [OF assms(1,2)]
  have us: "u \<le> 1 / 1000000000000"
    using assms(2) by simp
  have sd: "\<bar>sin (lat - lat0)\<bar> \<le> 1 / 2"
    using abs_sin_x_le_abs_x [of "lat - lat0"] assms(3) by linarith
  have "\<bar>fl_mul ops (fl_sin ops (fl_sub ops lat lat0)) (r_ns_fl ops)
          - sin (lat - lat0) * r_ns_fl ops\<bar> \<le> 4 * u * 8000000 + u * (1 * 8000000 + 1)"
    using assms(1) sin_step [OF assms] sd _ _ r(4) by (rule mul_step) (use us r(3) in simp_all)
  then have "\<bar>fl_mul ops (fl_sin ops (fl_sub ops lat lat0)) (r_ns_fl ops)
          - sin (lat - lat0) * r_ns_fl ops\<bar> \<le> 40000001 * u"
    by (simp add: algebra_simps)
  then show ?thesis
    using acc(1) by linarith
qed

lemma forward_y_fl:
  assumes "accurate u ops" "u \<le> 1 / 10 ^ 12" "\<bar>lon - lon0\<bar> \<le> 1 / 2"
  shows "\<bar>fl_mul ops (fl_mul ops (fl_sin ops (fl_sub ops lon lon0)) (r_ew_fl ops))
            (fl_cos ops lat0)
          - sin (lon - lon0) * ew_cos_fl ops\<bar> \<le> 60000000 * u"
proof -
  note acc = accurateD [OF assms(1)]
  note r = radii_fl [OF assms(1,2)]
  note c = ew_cos_fl_bounds [OF assms(1,2)]
  have us: "u \<le> 1 / 1000000000000"
    using assms(2) by simp
  define w where "w = sin (lon - lon0)"
  define F1 where "F1 = fl_mul ops (fl_sin ops (fl_sub ops lon lon0)) (r_ew_fl ops)"
  define P where "P = r_ew_fl ops * fl_cos ops lat0"
  have sd: "\<bar>w\<bar> \<le> 1 / 2"
    unfolding w_def using abs_sin_x_le_abs_x [of "lon - lon0"] assms(3) by linarith
  have "\<bar>F1 - w * r_ew_fl ops\<bar> \<le> 4 * u * 8000000 + u * (1 * 8000000 + 1)"
    unfolding F1_def w_def
    using assms(1) sin_step [OF assms] sd [unfolded w_def] _ _ r(6)
    by (rule mul_step) (use us r(5) in simp_all)
  then have "\<bar>F1 - w * r_ew_fl ops\<bar> \<le> 40000001 * u"
    by (simp add: algebra_simps)
  then have f1: "\<bar>F1 - w * r_ew_fl ops\<bar> \<le> 41000000 * u"
    using acc(1) by linarith
  have wb: "\<bar>w * r_ew_fl ops\<bar> \<le> 1 / 2 * 8000000"
    using sd r(5,6) by (intro abs_mult_le) simp_all
  then have wb': "\<bar>w * r_ew_fl ops\<bar> \<le> 4000000"
    by simp
  have "\<bar>fl_mul ops F1 (fl_cos ops lat0) - w * r_ew_fl ops * fl_cos ops lat0\<bar>
      \<le> 41000000 * u * (1001 / 1000) + u * (4000001 * (1001 / 1000) + 1)"
    using assms(1) f1 wb' _ _ c(2) by (rule mul_step) (use us c(1) in simp_all)
  then have "\<bar>fl_mul ops F1 (fl_cos ops lat0) - w * P\<bar>
      \<le> 41000000 * u * (1001 / 1000) + u * (4000001 * (1001 / 1000) + 1)"
    by (simp only: P_def mult.assoc)
  then have "\<bar>fl_mul ops F1 (fl_cos ops lat0) - w * P\<bar> \<le> 45045003 * u"
    using acc(1) by (simp add: algebra_simps)
  then have f: "\<bar>fl_mul ops F1 (fl_cos ops lat0) - w * P\<bar> \<le> 46000000 * u"
    using acc(1) by linarith
  have "\<bar>w * (P - ew_cos_fl ops)\<bar> \<le> 1 / 2 * (9000000 * u)"
    using sd c(5) by (intro abs_mult_le) (simp_all add: P_def abs_minus_commute)
  then have "\<bar>w * P - w * ew_cos_fl ops\<bar> \<le> 4500000 * u"
    by (simp add: right_diff_distrib)
  then have "\<bar>fl_mul ops F1 (fl_cos ops lat0) - w * ew_cos_fl ops\<bar> \<le> 60000000 * u"
    using f acc(1) by linarith
  then show ?thesis
    by (simp only: F1_def w_def)
qed

lemma forward_fl_single:
  assumes "accurate u ops" "u \<le> 1 / 10 ^ 12"
  shows "gps_to_local_coord_fl ops [Fin lat] [Fin lon]
    = ([Fin (fl_mul ops (fl_sin ops (fl_sub ops lat lat0)) (r_ns_fl ops))],
       [Fin (fl_mul ops (fl_mul ops (fl_sin ops (fl_sub ops lon lon0)) (r_ew_fl ops))
               (fl_cos ops lat0))])"
  by (simp add: gps_to_local_coord_fl_def params_fl_eq [OF assms] np_lift_def np_lift2_def)

lemma inverse_fl_single:
  assumes "accurate u ops" "u \<le> 1 / 10 ^ 12"
  shows "local_to_gps_coord_fl ops [Fin a] [Fin b]
    = ([inverse_elem_fl ops offset_x (r_ns_fl ops) lat0 a],
       [inverse_elem_fl ops offset_y (ew_cos_fl ops) lon0 b])"
proof -
  have o1: "Fin 76.50582406697139 = Fin offset_x"
    by (simp add: offset_x_def)
  have o2: "Fin 108.31373031919006 = Fin offset_y"
    by (simp add: offset_y_def)
  have n1: "r_ns_fl ops \<noteq> 0"
    using radii_fl(3) [OF assms] by simp
  have n2: "ew_cos_fl ops \<noteq> 0"
    using ew_cos_fl_bounds(3) [OF assms] by simp
  have m: "np_lift2 (fl_mul ops) (Fin (r_ew_fl ops)) (np_lift (fl_cos ops) (Fin lat0))
      = Fin (ew_cos_fl ops)"
    by (simp add: np_lift_def np_lift2_def ew_cos_fl_def)
  have e: "np_lift (fl_rad2deg ops)
        (np_lift2 (fl_add ops)
           (np_arcsin_fl ops (np_div_fl ops (np_lift2 (fl_sub ops) (Fin v) (Fin off)) (Fin r)))
           (Fin c))
      = inverse_elem_fl ops off r c v"
    if "r \<noteq> 0" for v r c off
    using that
    by (simp add: np_div_fl_def np_arcsin_fl_def np_lift_def np_lift2_def inverse_elem_fl_def)
  show ?thesis
    unfolding local_to_gps_coord_fl_def params_fl_eq [OF assms] o1 o2 m
    by (simp only: Let_def prod.case list.map m e [OF n1] e [OF n2])
qed

lemma np_close_below:
  assumes "1 / 10 ^ 6 < t - g"
  shows "\<not> np_close (1 / 10 ^ 6) (Fin g) (Fin t)"
proof -
  have "1 / 1000000 < t - g"
    using assms by simp
  then have "\<not> \<bar>g - t\<bar> \<le> 1 / 1000000"
    by linarith
  then show ?thesis
    by (simp add: np_close_def)
qed

lemma offsets_range:
  "76 \<le> offset_x" "offset_x \<le> 109" "76 \<le> offset_y" "offset_y \<le> 109"
  by (simp_all add: offset_x_def offset_y_def)

section \<open>The claims\<close>

text \<open>
  C4: the parameter derivation takes no input and reads no state, so every call gives the
  same tuple; the tuple is \<open>(r_ns, r_ew, lat0, lon0)\<close> with
  \<open>r_ns = (re*rp)^2 / ((re*cos lat0)^2 + (rp*sin lat0)^2)^(3/2)\<close> and
  \<open>r_ew = re^2 / ((re*cos lat0)^2 + (rp*sin lat0)^2)^(1/2)\<close> for
  \<open>re = 6378135\<close>, \<open>rp = 6356750\<close>, \<open>lat0 = 0.738167915410646\<close>,
  \<open>lon0 = -1.46098650670922\<close>, and all four components are finite numbers: no power of
  a negative base, no division by zero.
\<close>

theorem compute_gps_conversion_params_value:
  "compute_gps_conversion_params =
     (Fin ((6378135 * 6356750)\<^sup>2
           / ((6378135 * cos 0.738167915410646)\<^sup>2 + (6356750 * sin 0.738167915410646)\<^sup>2) powr (3 / 2)),
      Fin (6378135\<^sup>2
           / ((6378135 * cos 0.738167915410646)\<^sup>2 + (6356750 * sin 0.738167915410646)\<^sup>2) powr (1 / 2)),
      Fin 0.738167915410646,
      Fin (- 1.46098650670922))"
  unfolding params_eq r_ns_val_def r_ew_val_def curv_base_def lat0_def lon0_def
  by (rule refl)

text \<open>
  C1: for latitude and longitude arrays of equal length the forward conversion returns
  arrays \<open>x\<close>, \<open>y\<close> of that length with \<open>x_i = sin (lat_i - lat0) * r_ns\<close> and
  \<open>y_i = sin (lon_i - lon0) * r_ew * cos lat0\<close> (\<open>nan\<close> where the input element is
  \<open>nan\<close>). Element \<open>i\<close> depends on \<open>lat_i\<close> and \<open>lon_i\<close> only: selecting the inputs
  by any list of indices, a permutation among them, selects the outputs by the same list.
\<close>

theorem gps_to_local_coord_elementwise:
  assumes "length lat = length lon"
  shows "length (fst (gps_to_local_coord lat lon)) = length lat
    \<and> length (snd (gps_to_local_coord lat lon)) = length lon
    \<and> (\<forall>i<length lat.
          fst (gps_to_local_coord lat lon) ! i = np_lift (\<lambda>a. sin (a - lat0) * r_ns_val) (lat ! i)
        \<and> snd (gps_to_local_coord lat lon) ! i
            = np_lift (\<lambda>b. sin (b - lon0) * r_ew_val * cos lat0) (lon ! i))
    \<and> (\<forall>js. (\<forall>j\<in>set js. j < length lat) \<longrightarrow>
          gps_to_local_coord (map ((!) lat) js) (map ((!) lon) js)
          = (map ((!) (fst (gps_to_local_coord lat lon))) js,
             map ((!) (snd (gps_to_local_coord lat lon))) js))"
  using assms by (simp add: gps_to_local_coord_eq)

theorem gps_to_local_coord_elementwise_witness:
  "fst (gps_to_local_coord [Fin 1, Fin 0] [Fin 2, Fin 3]) ! 1 = Fin (sin (0 - lat0) * r_ns_val)
   \<and> snd (gps_to_local_coord [Fin 1, Fin 0] [Fin 2, Fin 3]) ! 0 = Fin (sin (2 - lon0) * r_ew_val * cos lat0)
   \<and> gps_to_local_coord [Fin 0, Fin 1] [Fin 3, Fin 2]
      = (rev (fst (gps_to_local_coord [Fin 1, Fin 0] [Fin 2, Fin 3])),
         rev (snd (gps_to_local_coord [Fin 1, Fin 0] [Fin 2, Fin 3])))"
proof -
  note t = gps_to_local_coord_elementwise [of "[Fin 1, Fin 0]" "[Fin 2, Fin 3]"]
  have h: "length [Fin 1, Fin 0] = length [Fin 2, Fin 3]"
    by simp
  have a: "fst (gps_to_local_coord [Fin 1, Fin 0] [Fin 2, Fin 3]) ! 1
      = np_lift (\<lambda>a. sin (a - lat0) * r_ns_val) ([Fin 1, Fin 0] ! 1)"
    using t [OF h] by simp
  have b: "snd (gps_to_local_coord [Fin 1, Fin 0] [Fin 2, Fin 3]) ! 0
      = np_lift (\<lambda>b. sin (b - lon0) * r_ew_val * cos lat0) ([Fin 2, Fin 3] ! 0)"
    using t [OF h] by simp
  have "\<forall>j\<in>set [1, 0 :: nat]. j < length [Fin 1, Fin 0]"
    by simp
  with t [OF h] have c: "gps_to_local_coord (map ((!) [Fin 1, Fin 0]) [1, 0]) (map ((!) [Fin 2, Fin 3]) [1, 0])
      = (map ((!) (fst (gps_to_local_coord [Fin 1, Fin 0] [Fin 2, Fin 3]))) [1, 0],
         map ((!) (snd (gps_to_local_coord [Fin 1, Fin 0] [Fin 2, Fin 3]))) [1, 0])"
    by blast
  have l: "length (fst (gps_to_local_coord [Fin 1, Fin 0] [Fin 2, Fin 3])) = 2"
       "length (snd (gps_to_local_coord [Fin 1, Fin 0] [Fin 2, Fin 3])) = 2"
    using t [OF h] by simp_all
  have r: "rev xs = [xs ! 1, xs ! 0]" if "length xs = 2" for xs :: "npfloat list"
    using that by (cases xs; cases "tl xs") auto
  show ?thesis
    using a b c by (simp add: np_lift_def r [OF l(1)] r [OF l(2)])
qed

text \<open>
  C5: the forward conversion of the reference point is exactly \<open>([0], [0])\<close>, and every
  element equal to \<open>lat0\<close> (to \<open>lon0\<close>) gives exactly \<open>0\<close> in \<open>x\<close> (in \<open>y\<close>).
\<close>

theorem gps_to_local_coord_origin:
  "gps_to_local_coord [Fin 0.738167915410646] [Fin (- 1.46098650670922)] = ([Fin 0], [Fin 0])
   \<and> (\<forall>i<length lat. lat ! i = Fin 0.738167915410646 \<longrightarrow>
         fst (gps_to_local_coord lat lon) ! i = Fin 0)
   \<and> (\<forall>i<length lon. lon ! i = Fin (- 1.46098650670922) \<longrightarrow>
         snd (gps_to_local_coord lat lon) ! i = Fin 0)"
  by (simp add: gps_to_local_coord_eq np_lift_def lat0_def lon0_def)

theorem gps_to_local_coord_origin_witness:
  "fst (gps_to_local_coord [Fin 5, Fin 0.738167915410646] [Fin 7, Fin (- 1.46098650670922)]) ! 1 = Fin 0
   \<and> snd (gps_to_local_coord [Fin 5, Fin 0.738167915410646] [Fin 7, Fin (- 1.46098650670922)]) ! 1 = Fin 0"
  using gps_to_local_coord_origin
    [of "[Fin 5, Fin 0.738167915410646]" "[Fin 7, Fin (- 1.46098650670922)]"]
  by simp

text \<open>
  C3: for arrays \<open>x\<close>, \<open>y\<close> of equal length the inverse conversion returns arrays of
  that length with \<open>lat_i = rad2deg (arcsin ((x_i - 76.50582406697139) / r_ns) + lat0)\<close>
  and \<open>lon_i = rad2deg (arcsin ((y_i - 108.31373031919006) / (r_ew * cos lat0)) + lon0)\<close>:
  first in NumPy's operations, for every element, then on the reals, for a finite element
  whose arcsine argument lies in \<open>[-1, 1]\<close>. The result is in degrees (the factor
  \<open>180 / pi\<close>).
\<close>

theorem local_to_gps_coord_formula:
  assumes "length x = length y"
  shows "length (fst (local_to_gps_coord x y)) = length x
    \<and> length (snd (local_to_gps_coord x y)) = length y
    \<and> (\<forall>i<length x.
          fst (local_to_gps_coord x y) ! i
            = np_rad2deg (np_add (np_arcsin (np_div (np_sub (x ! i) (Fin 76.50582406697139))
                (Fin r_ns_val))) (Fin lat0))
        \<and> snd (local_to_gps_coord x y) ! i
            = np_rad2deg (np_add (np_arcsin (np_div (np_sub (y ! i) (Fin 108.31373031919006))
                (Fin (r_ew_val * cos lat0)))) (Fin lon0))
        \<and> (\<forall>a. x ! i = Fin a \<and> \<bar>(a - 76.50582406697139) / r_ns_val\<bar> \<le> 1 \<longrightarrow>
              fst (local_to_gps_coord x y) ! i
                = Fin ((arcsin ((a - 76.50582406697139) / r_ns_val) + lat0) * (180 / pi)))
        \<and> (\<forall>b. y ! i = Fin b \<and> \<bar>(b - 108.31373031919006) / (r_ew_val * cos lat0)\<bar> \<le> 1 \<longrightarrow>
              snd (local_to_gps_coord x y) ! i
                = Fin ((arcsin ((b - 108.31373031919006) / (r_ew_val * cos lat0)) + lon0)
                       * (180 / pi))))"
proof -
  have n1: "r_ns_val \<noteq> 0"
    using r_ns_val_pos by simp
  have n2: "r_ew_val * cos lat0 \<noteq> 0"
    using r_ew_val_pos cos_lat0_pos by simp
  have ox: "(76.50582406697139 :: real) = offset_x"
    by (simp add: offset_x_def)
  have oy: "(108.31373031919006 :: real) = offset_y"
    by (simp add: offset_y_def)
  show ?thesis
    unfolding ox oy inverse_elem_eq [OF n1] inverse_elem_eq [OF n2]
    using assms by (simp add: local_to_gps_coord_eq inverse_elem_def)
qed

theorem local_to_gps_coord_formula_witness:
  "fst (local_to_gps_coord [Fin 76.50582406697139] [Fin 108.31373031919006]) ! 0
     = Fin (lat0 * (180 / pi))
   \<and> snd (local_to_gps_coord [Fin 76.50582406697139] [Fin 108.31373031919006]) ! 0
     = Fin (lon0 * (180 / pi))"
proof -
  let ?x = "[Fin 76.50582406697139]"
  let ?y = "[Fin 108.31373031919006]"
  have h: "length ?x = length ?y"
    by simp
  note t = local_to_gps_coord_formula [OF h]
  have i: "0 < length ?x"
    by simp
  from t i have "\<forall>a. ?x ! 0 = Fin a \<and> \<bar>(a - 76.50582406697139) / r_ns_val\<bar> \<le> 1 \<longrightarrow>
      fst (local_to_gps_coord ?x ?y) ! 0
        = Fin ((arcsin ((a - 76.50582406697139) / r_ns_val) + lat0) * (180 / pi))"
    by blast
  moreover have "?x ! 0 = Fin 76.50582406697139
      \<and> \<bar>(76.50582406697139 - 76.50582406697139) / r_ns_val\<bar> \<le> 1"
    by simp
  ultimately have a: "fst (local_to_gps_coord ?x ?y) ! 0
      = Fin ((arcsin ((76.50582406697139 - 76.50582406697139) / r_ns_val) + lat0) * (180 / pi))"
    by blast
  from t i have "\<forall>b. ?y ! 0 = Fin b
        \<and> \<bar>(b - 108.31373031919006) / (r_ew_val * cos lat0)\<bar> \<le> 1 \<longrightarrow>
      snd (local_to_gps_coord ?x ?y) ! 0
        = Fin ((arcsin ((b - 108.31373031919006) / (r_ew_val * cos lat0)) + lon0) * (180 / pi))"
    by blast
  moreover have "?y ! 0 = Fin 108.31373031919006
      \<and> \<bar>(108.31373031919006 - 108.31373031919006) / (r_ew_val * cos lat0)\<bar> \<le> 1"
    by simp
  ultimately have b: "snd (local_to_gps_coord ?x ?y) ! 0
      = Fin ((arcsin ((108.31373031919006 - 108.31373031919006) / (r_ew_val * cos lat0)) + lon0)
             * (180 / pi))"
    by blast
  show ?thesis
    unfolding a b by simp
qed

text \<open>
  C6: the inverse conversion returns arrays of the lengths of its inputs whatever the
  elements are (it has no error result), and an element whose offset-corrected arcsine
  argument is out of range, \<open>|(x_i - 76.50582406697139) / r_ns| > 1\<close> or
  \<open>|(y_i - 108.31373031919006) / (r_ew * cos lat0)| > 1\<close>, gives \<open>nan\<close> in the latitude
  or longitude output at the same index.
\<close>

theorem local_to_gps_coord_nan:
  "length (fst (local_to_gps_coord x y)) = length x
   \<and> length (snd (local_to_gps_coord x y)) = length y
   \<and> (\<forall>i<length x. \<forall>a. x ! i = Fin a \<and> 1 < \<bar>(a - 76.50582406697139) / r_ns_val\<bar> \<longrightarrow>
         fst (local_to_gps_coord x y) ! i = NaN)
   \<and> (\<forall>i<length y. \<forall>b. y ! i = Fin b
           \<and> 1 < \<bar>(b - 108.31373031919006) / (r_ew_val * cos lat0)\<bar> \<longrightarrow>
         snd (local_to_gps_coord x y) ! i = NaN)"
proof -
  have ox: "(76.50582406697139 :: real) = offset_x"
    by (simp add: offset_x_def)
  have oy: "(108.31373031919006 :: real) = offset_y"
    by (simp add: offset_y_def)
  show ?thesis
    unfolding ox oy by (simp add: local_to_gps_coord_eq inverse_elem_def)
qed

theorem local_to_gps_coord_nan_witness:
  "local_to_gps_coord [Fin 100000000, Fin 76.50582406697139] [Fin 108.31373031919006, Fin (- 100000000)]
   = ([NaN, Fin (lat0 * (180 / pi))], [Fin (lon0 * (180 / pi)), NaN])"
proof -
  let ?x = "[Fin 100000000, Fin 76.50582406697139]"
  let ?y = "[Fin 108.31373031919006, Fin (- 100000000)]"
  note t = local_to_gps_coord_nan [of ?x ?y]
  have a: "1 < \<bar>(100000000 - 76.50582406697139) / r_ns_val\<bar>"
    using r_ns_val_le r_ns_val_pos by (simp add: field_simps)
  have b: "1 < \<bar>(- 100000000 - 108.31373031919006) / (r_ew_val * cos lat0)\<bar>"
    using r_ew_cos_le r_ew_cos_pos by (simp add: field_simps abs_if)
  have "fst (local_to_gps_coord ?x ?y) ! 0 = NaN"
    using t a by simp
  moreover have "snd (local_to_gps_coord ?x ?y) ! 1 = NaN"
    using t b by simp
  moreover have "fst (local_to_gps_coord ?x ?y) ! 1 = Fin (lat0 * (180 / pi))"
    by (simp add: local_to_gps_coord_eq inverse_elem_def offset_x_def)
  moreover have "snd (local_to_gps_coord ?x ?y) ! 0 = Fin (lon0 * (180 / pi))"
    by (simp add: local_to_gps_coord_eq inverse_elem_def offset_y_def)
  moreover have "length (fst (local_to_gps_coord ?x ?y)) = 2" "length (snd (local_to_gps_coord ?x ?y)) = 2"
    using t by simp_all
  ultimately show ?thesis
    by (cases "local_to_gps_coord ?x ?y") (auto simp: length_Suc_conv numeral_2_eq_2)
qed

text \<open>
  C2: in every arithmetic that is accurate to \<open>10^-12\<close> in the sense of \<open>accurate\<close>
  (IEEE doubles are, by a factor of several thousand), and for \<open>(lat, lon)\<close> within
  half a radian of the reference point: converting forward, adding \<open>76.50582406697139\<close>
  to \<open>x\<close> and \<open>108.31373031919006\<close> to \<open>y\<close>, and converting back gives the latitude
  \<open>lat * 180 / pi\<close> and the longitude \<open>lon * 180 / pi\<close>, in degrees, each within
  \<open>10^-6\<close>. Converting back without adding the offsets does not: the latitude and the
  longitude returned are both farther than \<open>10^-6\<close> degrees from the original, or \<open>nan\<close>.
\<close>

theorem offset_round_trip:
  assumes "accurate u ops" and "u \<le> 1 / 10 ^ 12"
    and "\<bar>lat - lat0\<bar> \<le> 1 / 2" and "\<bar>lon - lon0\<bar> \<le> 1 / 2"
  shows "(case gps_to_local_coord_fl ops [Fin lat] [Fin lon] of
            (x, y) \<Rightarrow>
              (case local_to_gps_coord_fl ops
                      (map (\<lambda>v. np_lift2 (fl_add ops) v (Fin 76.50582406697139)) x)
                      (map (\<lambda>v. np_lift2 (fl_add ops) v (Fin 108.31373031919006)) y) of
                 (lat2, lon2) \<Rightarrow>
                   np_allclose (1 / 10 ^ 6) lat2 [Fin (lat * (180 / pi))]
                   \<and> np_allclose (1 / 10 ^ 6) lon2 [Fin (lon * (180 / pi))]))
    \<and> (case gps_to_local_coord_fl ops [Fin lat] [Fin lon] of
          (x, y) \<Rightarrow>
            (case local_to_gps_coord_fl ops x y of
               (lat2, lon2) \<Rightarrow>
                 \<not> np_allclose (1 / 10 ^ 6) lat2 [Fin (lat * (180 / pi))]
                 \<and> \<not> np_allclose (1 / 10 ^ 6) lon2 [Fin (lon * (180 / pi))]))"
proof -
  have o1: "Fin 76.50582406697139 = Fin offset_x"
    by (simp add: offset_x_def)
  have o2: "Fin 108.31373031919006 = Fin offset_y"
    by (simp add: offset_y_def)
  have c1: "\<bar>lat0\<bar> \<le> 2" and c2: "\<bar>lon0\<bar> \<le> 2"
    by (simp_all add: lat0_def lon0_def)
  note r = radii_fl [OF assms(1,2)]
  note e = ew_cos_fl_bounds [OF assms(1,2)]
  have rl: "2000000 \<le> r_ns_fl ops" and ru: "r_ns_fl ops \<le> 9000000"
    using r(3,4) by simp_all
  define Fx where "Fx = fl_mul ops (fl_sin ops (fl_sub ops lat lat0)) (r_ns_fl ops)"
  define Fy where "Fy = fl_mul ops (fl_mul ops (fl_sin ops (fl_sub ops lon lon0))
      (r_ew_fl ops)) (fl_cos ops lat0)"
  note x = round_trip_1d [OF assms(1,2) rl ru
      forward_x_fl [OF assms(1,2,3), folded Fx_def] assms(3) c1 offsets_range(1,2)]
  note y = round_trip_1d [OF assms(1,2) e(3,4)
      forward_y_fl [OF assms(1,2,4), folded Fy_def] assms(4) c2 offsets_range(3,4)]
  have tx: "(lat - lat0 + lat0) * (180 / pi) = lat * (180 / pi)"
    and ty: "(lon - lon0 + lon0) * (180 / pi) = lon * (180 / pi)"
    by simp_all
  have bx: "np_close (1 / 10 ^ 6)
      (inverse_elem_fl ops offset_x (r_ns_fl ops) lat0 (fl_add ops Fx offset_x))
      (Fin (lat * (180 / pi)))"
    using x(1,2,3) unfolding tx by (simp add: inverse_elem_fl_def np_close_def)
  have by': "np_close (1 / 10 ^ 6)
      (inverse_elem_fl ops offset_y (ew_cos_fl ops) lon0 (fl_add ops Fy offset_y))
      (Fin (lon * (180 / pi)))"
    using y(1,2,3) unfolding ty by (simp add: inverse_elem_fl_def np_close_def)
  have px: "\<not> np_close (1 / 10 ^ 6)
      (inverse_elem_fl ops offset_x (r_ns_fl ops) lat0 Fx) (Fin (lat * (180 / pi)))"
  proof (cases "- 1 \<le> fl_div ops (fl_sub ops Fx offset_x) (r_ns_fl ops)
      \<and> fl_div ops (fl_sub ops Fx offset_x) (r_ns_fl ops) \<le> 1")
    case True
    then have "1 / 10 ^ 6 < lat * (180 / pi)
        - fl_rad2deg ops (fl_add ops (fl_arcsin ops
            (fl_div ops (fl_sub ops Fx offset_x) (r_ns_fl ops))) lat0)"
      using x(4) unfolding tx by blast
    then have "\<not> np_close (1 / 10 ^ 6)
        (Fin (fl_rad2deg ops (fl_add ops (fl_arcsin ops
            (fl_div ops (fl_sub ops Fx offset_x) (r_ns_fl ops))) lat0)))
        (Fin (lat * (180 / pi)))"
      by (rule np_close_below)
    then show ?thesis
      unfolding inverse_elem_fl_def using True by (simp only: simp_thms if_True)
  next
    case False
    then show ?thesis
      unfolding inverse_elem_fl_def by (simp only: if_not_P) (simp add: np_close_def)
  qed
  have py: "\<not> np_close (1 / 10 ^ 6)
      (inverse_elem_fl ops offset_y (ew_cos_fl ops) lon0 Fy) (Fin (lon * (180 / pi)))"
  proof (cases "- 1 \<le> fl_div ops (fl_sub ops Fy offset_y) (ew_cos_fl ops)
      \<and> fl_div ops (fl_sub ops Fy offset_y) (ew_cos_fl ops) \<le> 1")
    case True
    then have "1 / 10 ^ 6 < lon * (180 / pi)
        - fl_rad2deg ops (fl_add ops (fl_arcsin ops
            (fl_div ops (fl_sub ops Fy offset_y) (ew_cos_fl ops))) lon0)"
      using y(4) unfolding ty by blast
    then have "\<not> np_close (1 / 10 ^ 6)
        (Fin (fl_rad2deg ops (fl_add ops (fl_arcsin ops
            (fl_div ops (fl_sub ops Fy offset_y) (ew_cos_fl ops))) lon0)))
        (Fin (lon * (180 / pi)))"
      by (rule np_close_below)
    then show ?thesis
      unfolding inverse_elem_fl_def using True by (simp only: simp_thms if_True)
  next
    case False
    then show ?thesis
      unfolding inverse_elem_fl_def by (simp only: if_not_P) (simp add: np_close_def)
  qed
  show ?thesis
    unfolding forward_fl_single [OF assms(1,2)] o1 o2
    using bx by' px py
    by (simp add: Fx_def [symmetric] Fy_def [symmetric] np_lift2_def
        inverse_fl_single [OF assms(1,2)] np_allclose_def)
qed

theorem offset_round_trip_witness:
  "(case gps_to_local_coord_fl skewed_ops [Fin 0.74] [Fin (- 1.46)] of
      (x, y) \<Rightarrow>
        (case local_to_gps_coord_fl skewed_ops
                (map (\<lambda>v. np_lift2 (fl_add skewed_ops) v (Fin 76.50582406697139)) x)
                (map (\<lambda>v. np_lift2 (fl_add skewed_ops) v (Fin 108.31373031919006)) y) of
           (lat2, lon2) \<Rightarrow>
             np_allclose (1 / 10 ^ 6) lat2 [Fin (0.74 * (180 / pi))]
             \<and> np_allclose (1 / 10 ^ 6) lon2 [Fin (- 1.46 * (180 / pi))]))
   \<and> (case gps_to_local_coord_fl skewed_ops [Fin 0.74] [Fin (- 1.46)] of
        (x, y) \<Rightarrow>
          (case local_to_gps_coord_fl skewed_ops x y of
             (lat2, lon2) \<Rightarrow>
               \<not> np_allclose (1 / 10 ^ 6) lat2 [Fin (0.74 * (180 / pi))]
               \<and> \<not> np_allclose (1 / 10 ^ 6) lon2 [Fin (- 1.46 * (180 / pi))]))"
proof -
  have h0: "(1 :: real) / 10 ^ 12 \<le> 1 / 10 ^ 12"
    by simp
  have h1: "\<bar>0.74 - lat0\<bar> \<le> 1 / 2"
    by (simp add: lat0_def)
  have h2: "\<bar>- 1.46 - lon0\<bar> \<le> 1 / 2"
    by (simp add: lon0_def)
  show ?thesis
    by (rule offset_round_trip [OF accurate_skewed_ops h0 h1 h2])
qed

text \<open>
  C7, as stated, fails: the longitude \<open>2.53901349329078\<close> (about 145 degrees east) is
  greater than \<open>lon0\<close>, and its east offset is \<open>sin 4 * r_ew * cos lat0\<close>, which is
  negative, since the difference \<open>lon - lon0 = 4\<close> lies beyond half a turn.
\<close>

theorem east_offset_sign_counterexample:
  "- 1.46098650670922 < (2.53901349329078 :: real)
   \<and> snd (gps_to_local_coord [Fin 0.74] [Fin 2.53901349329078])
       = [Fin (sin 4 * r_ew_val * cos lat0)]
   \<and> sin 4 * r_ew_val * cos lat0 < 0
   \<and> \<not> np_positive (snd (gps_to_local_coord [Fin 0.74] [Fin 2.53901349329078]) ! 0)"
proof -
  have n: "sin 4 * r_ew_val * cos lat0 < 0"
    using sin_four_neg r_ew_cos_pos by (simp add: mult.assoc mult_neg_pos)
  have v: "snd (gps_to_local_coord [Fin 0.74] [Fin 2.53901349329078])
      = [Fin (sin 4 * r_ew_val * cos lat0)]"
    by (simp add: gps_to_local_coord_eq np_lift_def lon0_def)
  show ?thesis
    unfolding v using n by (simp add: np_positive_def)
qed

text \<open>
  C7, amended: a latitude greater than \<open>lat0\<close> and less than \<open>lat0 + pi\<close> (so every
  geodetic latitude above \<open>lat0\<close>) yields a positive north offset \<open>x\<close>, and a longitude
  greater than \<open>lon0\<close> and less than \<open>lon0 + pi\<close> yields a positive east offset \<open>y\<close>.
\<close>

theorem forward_sign_convention:
  "(\<forall>i<length lat. \<forall>a. lat ! i = Fin a \<and> lat0 < a \<and> a < lat0 + pi \<longrightarrow>
      np_positive (fst (gps_to_local_coord lat lon) ! i))
   \<and> (\<forall>i<length lon. \<forall>b. lon ! i = Fin b \<and> lon0 < b \<and> b < lon0 + pi \<longrightarrow>
      np_positive (snd (gps_to_local_coord lat lon) ! i))"
proof -
  have p: "0 < sin (a - c) * r" if "c < a" "a < c + pi" "0 < r" for a c r :: real
  proof -
    have "0 < sin (a - c)"
      using that by (intro sin_gt_zero) simp_all
    then show ?thesis
      using that(3) by simp
  qed
  have q: "0 < sin (b - lon0) * r_ew_val * cos lat0" if "lon0 < b" "b < lon0 + pi" for b
    using p [OF that r_ew_cos_pos] by (simp add: mult.assoc)
  show ?thesis
    using p [OF _ _ r_ns_val_pos] q
    by (simp add: gps_to_local_coord_eq np_lift_def np_positive_def)
qed

theorem forward_sign_convention_witness:
  "np_positive (fst (gps_to_local_coord [Fin 1] [Fin 0]) ! 0)
   \<and> np_positive (snd (gps_to_local_coord [Fin 1] [Fin 0]) ! 0)"
proof -
  note t = forward_sign_convention [of "[Fin 1]" "[Fin 0]"]
  have "[Fin 1] ! 0 = Fin 1 \<and> lat0 < 1 \<and> 1 < lat0 + pi"
    using pi_ge_three by (simp add: lat0_def)
  moreover have "[Fin 0] ! 0 = Fin 0 \<and> lon0 < 0 \<and> 0 < lon0 + pi"
    using pi_ge_three by (simp add: lon0_def)
  moreover have "0 < length [Fin 1]" "0 < length [Fin 0]"
    by simp_all
  ultimately show ?thesis
    using t by blast
qed

text \<open>
  C8: on ground-truth arrays of 1000 points the decimation \<^verbatim>\<open>[1::200]\<close> of the export
  keeps exactly the points at indices 1, 201, 401, 601 and 801, five points; the export
  with \<^verbatim>\<open>subsample\<close> set is the export of exactly these points, and on a template with
  three names and two coordinate slots the second slot of the document written holds the
  formatted conversion of these five points and of nothing else: five records, in this order
  (spelled out record by record where there is no estimated path).
\<close>

theorem decimate_thousand:
  assumes "length xs2 = 1000" and "length ys2 = 1000"
  shows "slice_from_step 1 200 xs2 = [xs2 ! 1, xs2 ! 201, xs2 ! 401, xs2 ! 601, xs2 ! 801]
    \<and> slice_from_step 1 200 ys2 = [ys2 ! 1, ys2 ! 201, ys2 ! 401, ys2 ! 601, ys2 ! 801]
    \<and> length (slice_from_step 1 200 xs2) = 5
    \<and> export_to_kml str doc x1 y1 (Some xs2) (Some ys2) label1 label2 True
        = export_to_kml str doc x1 y1
            (Some [xs2 ! 1, xs2 ! 201, xs2 ! 401, xs2 ! 601, xs2 ! 801])
            (Some [ys2 ! 1, ys2 ! 201, ys2 ! 401, ys2 ! 601, ys2 ! 801]) label1 label2 False
    \<and> (3 \<le> length (names doc) \<and> 2 \<le> length (coordinates doc) \<longrightarrow>
         export_to_kml str doc (Some xs1) (Some ys1) (Some xs2) (Some ys2) label1 label2 True
         = Inr \<lparr>names = (names doc)[1 := label1, 2 := label2],
                coordinates = (coordinates doc)
                  [0 := format_lat_lon str (fst (local_to_gps_coord xs1 ys1))
                          (snd (local_to_gps_coord xs1 ys1)),
                   1 := format_lat_lon str
                          (fst (local_to_gps_coord
                             [xs2 ! 1, xs2 ! 201, xs2 ! 401, xs2 ! 601, xs2 ! 801]
                             [ys2 ! 1, ys2 ! 201, ys2 ! 401, ys2 ! 601, ys2 ! 801]))
                          (snd (local_to_gps_coord
                             [xs2 ! 1, xs2 ! 201, xs2 ! 401, xs2 ! 601, xs2 ! 801]
                             [ys2 ! 1, ys2 ! 201, ys2 ! 401, ys2 ! 601, ys2 ! 801]))]\<rparr>
         \<and> export_to_kml str doc None None (Some xs2) (Some ys2) label1 label2 True
         = Inr \<lparr>names = (names doc)[1 := label1, 2 := label2],
                coordinates = (coordinates doc)
                  [1 := join [CHR 0x0A]
                          (map (\<lambda>i. ''            ''
                                  @ str (inverse_elem offset_y (r_ew_val * cos lat0) lon0 (ys2 ! i))
                                  @ '','' @ str (inverse_elem offset_x r_ns_val lat0 (xs2 ! i))
                                  @ '',1'')
                             [1, 201, 401, 601, 801])]\<rparr>)"
proof -
  note sx = slice_thousand [OF assms(1)]
  note sy = slice_thousand [OF assms(2)]
  have a: "slice_from_step 1 200 xs2 = [xs2 ! 1, xs2 ! 201, xs2 ! 401, xs2 ! 601, xs2 ! 801]
    \<and> slice_from_step 1 200 ys2 = [ys2 ! 1, ys2 ! 201, ys2 ! 401, ys2 ! 601, ys2 ! 801]
    \<and> length (slice_from_step 1 200 xs2) = 5"
    unfolding sx sy by simp
  have b: "export_to_kml str doc x1 y1 (Some xs2) (Some ys2) label1 label2 True
        = export_to_kml str doc x1 y1
            (Some [xs2 ! 1, xs2 ! 201, xs2 ! 401, xs2 ! 601, xs2 ! 801])
            (Some [ys2 ! 1, ys2 ! 201, ys2 ! 401, ys2 ! 601, ys2 ! 801]) label1 label2 False"
    unfolding export_subsample_eq option.map sx sy by (rule refl)
  have c: "export_to_kml str doc (Some xs1) (Some ys1) (Some xs2) (Some ys2) label1 label2 True
         = Inr \<lparr>names = (names doc)[1 := label1, 2 := label2],
                coordinates = (coordinates doc)
                  [0 := format_lat_lon str (fst (local_to_gps_coord xs1 ys1))
                          (snd (local_to_gps_coord xs1 ys1)),
                   1 := format_lat_lon str
                          (fst (local_to_gps_coord
                             [xs2 ! 1, xs2 ! 201, xs2 ! 401, xs2 ! 601, xs2 ! 801]
                             [ys2 ! 1, ys2 ! 201, ys2 ! 401, ys2 ! 601, ys2 ! 801]))
                          (snd (local_to_gps_coord
                             [xs2 ! 1, xs2 ! 201, xs2 ! 401, xs2 ! 601, xs2 ! 801]
                             [ys2 ! 1, ys2 ! 201, ys2 ! 401, ys2 ! 601, ys2 ! 801]))]\<rparr>"
    if "3 \<le> length (names doc)" "2 \<le> length (coordinates doc)"
    using export_to_kml_ok [OF that, of str xs1 ys1 xs2 ys2 label1 label2 True]
    unfolding if_True sx sy .
  have d: "export_to_kml str doc None None (Some xs2) (Some ys2) label1 label2 True
         = Inr \<lparr>names = (names doc)[1 := label1, 2 := label2],
                coordinates = (coordinates doc)
                  [1 := join [CHR 0x0A]
                          (map (\<lambda>i. ''            ''
                                  @ str (inverse_elem offset_y (r_ew_val * cos lat0) lon0 (ys2 ! i))
                                  @ '','' @ str (inverse_elem offset_x r_ns_val lat0 (xs2 ! i))
                                  @ '',1'')
                             [1, 201, 401, 601, 801])]\<rparr>"
    if "3 \<le> length (names doc)" "2 \<le> length (coordinates doc)"
    using that
    by (simp add: export_to_kml_def Let_def sx sy local_to_gps_coord_eq
        format_lat_lon_def del: One_nat_def)
  show ?thesis
    using a b c d by blast
qed

theorem decimate_thousand_witness:
  "slice_from_step 1 200 (map (\<lambda>n. Fin (real n)) [0..<1000])
     = [Fin 1, Fin 201, Fin 401, Fin 601, Fin 801]
   \<and> slice_from_step 1 200 (map (\<lambda>n. Fin (- real n)) [0..<1000])
     = [Fin (- 1), Fin (- 201), Fin (- 401), Fin (- 601), Fin (- 801)]
   \<and> export_to_kml str_whole \<lparr>names = [''Paths'', ''a'', ''b''], coordinates = [''c1'', ''c2'']\<rparr>
       (Some [Fin 0]) (Some [Fin 0]) (Some (map (\<lambda>n. Fin (real n)) [0..<1000]))
       (Some (map (\<lambda>n. Fin (- real n)) [0..<1000])) ''est'' ''gt'' True
     = Inr \<lparr>names = [''Paths'', ''est'', ''gt''],
            coordinates =
              [format_lat_lon str_whole (fst (local_to_gps_coord [Fin 0] [Fin 0]))
                 (snd (local_to_gps_coord [Fin 0] [Fin 0])),
               format_lat_lon str_whole
                 (fst (local_to_gps_coord [Fin 1, Fin 201, Fin 401, Fin 601, Fin 801]
                    [Fin (- 1), Fin (- 201), Fin (- 401), Fin (- 601), Fin (- 801)]))
                 (snd (local_to_gps_coord [Fin 1, Fin 201, Fin 401, Fin 601, Fin 801]
                    [Fin (- 1), Fin (- 201), Fin (- 401), Fin (- 601), Fin (- 801)]))]\<rparr>"
proof -
  let ?xs = "map (\<lambda>n. Fin (real n)) [0..<1000]"
  let ?ys = "map (\<lambda>n. Fin (- real n)) [0..<1000]"
  let ?doc = "\<lparr>names = [''Paths'', ''a'', ''b''], coordinates = [''c1'', ''c2'']\<rparr>"
  have h1: "length ?xs = 1000"
    by simp
  have h2: "length ?ys = 1000"
    by simp
  have h3: "3 \<le> length (names ?doc) \<and> 2 \<le> length (coordinates ?doc)"
    by simp
  note t = decimate_thousand [OF h1 h2, of str_whole ?doc _ _ "''est''" "''gt''"
      "[Fin 0]" "[Fin 0]"]
  note a = t [THEN conjunct1]
  note b = t [THEN conjunct2, THEN conjunct1]
  note c = t [THEN conjunct2, THEN conjunct2, THEN conjunct2, THEN conjunct2, THEN mp, OF h3,
      THEN conjunct1]
  show ?thesis
    using a b c by simp
qed

text \<open>
  C10: exporting with \<^verbatim>\<open>subsample\<close> set is exporting, without it, the same
  estimated arrays \<open>x1\<close>, \<open>y1\<close> and the ground-truth arrays \<open>x2\<close>, \<open>y2\<close> decimated to
  every 200th element from index 1. On a template with three names and two coordinate
  slots the first slot holds the formatted conversion of all of \<open>x1\<close>, \<open>y1\<close> with the
  flag set or not, and the second slot that of the decimated, or of the whole, \<open>x2\<close>,
  \<open>y2\<close>.
\<close>

theorem subsample_frame:
  "export_to_kml str doc x1 y1 x2 y2 label1 label2 True
     = export_to_kml str doc x1 y1 (map_option (slice_from_step 1 200) x2)
         (map_option (slice_from_step 1 200) y2) label1 label2 False
   \<and> (3 \<le> length (names doc) \<and> 2 \<le> length (coordinates doc) \<longrightarrow>
        export_to_kml str doc (Some xs1) (Some ys1) (Some xs2) (Some ys2) label1 label2 True
          = Inr \<lparr>names = (names doc)[1 := label1, 2 := label2],
                 coordinates = (coordinates doc)
                   [0 := format_lat_lon str (fst (local_to_gps_coord xs1 ys1))
                           (snd (local_to_gps_coord xs1 ys1)),
                    1 := format_lat_lon str
                           (fst (local_to_gps_coord (slice_from_step 1 200 xs2)
                                  (slice_from_step 1 200 ys2)))
                           (snd (local_to_gps_coord (slice_from_step 1 200 xs2)
                                  (slice_from_step 1 200 ys2)))]\<rparr>
        \<and> export_to_kml str doc (Some xs1) (Some ys1) (Some xs2) (Some ys2) label1 label2 False
          = Inr \<lparr>names = (names doc)[1 := label1, 2 := label2],
                 coordinates = (coordinates doc)
                   [0 := format_lat_lon str (fst (local_to_gps_coord xs1 ys1))
                           (snd (local_to_gps_coord xs1 ys1)),
                    1 := format_lat_lon str (fst (local_to_gps_coord xs2 ys2))
                           (snd (local_to_gps_coord xs2 ys2))]\<rparr>)"
  using export_subsample_eq [of str doc x1 y1 x2 y2 label1 label2]
    export_to_kml_ok [of doc str xs1 ys1 xs2 ys2 label1 label2 True]
    export_to_kml_ok [of doc str xs1 ys1 xs2 ys2 label1 label2 False]
  by simp

theorem subsample_frame_witness:
  "export_to_kml str_whole \<lparr>names = [''Paths'', ''a'', ''b''], coordinates = [''c1'', ''c2'']\<rparr>
     (Some [Fin 0]) (Some [Fin 0]) (Some [Fin 1, Fin 2]) (Some [Fin 3, Fin 4]) ''est'' ''gt'' True
   = Inr \<lparr>names = [''Paths'', ''est'', ''gt''],
          coordinates =
            [format_lat_lon str_whole (fst (local_to_gps_coord [Fin 0] [Fin 0]))
               (snd (local_to_gps_coord [Fin 0] [Fin 0])),
             format_lat_lon str_whole (fst (local_to_gps_coord [Fin 2] [Fin 4]))
               (snd (local_to_gps_coord [Fin 2] [Fin 4]))]\<rparr>"
proof -
  let ?doc = "\<lparr>names = [''Paths'', ''a'', ''b''], coordinates = [''c1'', ''c2'']\<rparr>"
  have h: "3 \<le> length (names ?doc) \<and> 2 \<le> length (coordinates ?doc)"
    by simp
  have s: "slice_from_step 1 200 [Fin 1, Fin 2] = [Fin 2]"
          "slice_from_step 1 200 [Fin 3, Fin 4] = [Fin 4]"
    by (simp_all add: slice_from_step_def)
  note t = subsample_frame [of str_whole ?doc "Some [Fin 0]" "Some [Fin 0]"
      "Some [Fin 1, Fin 2]" "Some [Fin 3, Fin 4]" "''est''" "''gt''"
      "[Fin 0]" "[Fin 0]" "[Fin 1, Fin 2]" "[Fin 3, Fin 4]"]
  note u = t [THEN conjunct2, THEN mp, OF h, THEN conjunct1]
  show ?thesis
    using u unfolding s by simp
qed

text \<open>
  C9, as stated, fails: with whole-number floats printed as Python prints them
  (\<open>1.0\<close>, \<open>2.0\<close>, \<open>3.0\<close>, \<open>4.0\<close>) the text for latitudes \<open>[1.0, 2.0]\<close> and
  longitudes \<open>[3.0, 4.0]\<close> is not \<open>3.0,1.0,1\<close> and \<open>4.0,2.0,1\<close> joined by a newline:
  the format string of the source starts with twelve spaces.
\<close>

theorem format_lat_lon_literal_counterexample:
  "str_whole (Fin 1) = ''1.0'' \<and> str_whole (Fin 2) = ''2.0''
   \<and> str_whole (Fin 3) = ''3.0'' \<and> str_whole (Fin 4) = ''4.0''
   \<and> format_lat_lon str_whole [Fin 1, Fin 2] [Fin 3, Fin 4]
       \<noteq> ''3.0,1.0,1'' @ [CHR 0x0A] @ ''4.0,2.0,1''"
  by (simp add: str_whole_digits format_lat_lon_def)

text \<open>
  C9, amended: for latitudes \<open>[1.0, 2.0]\<close> and longitudes \<open>[3.0, 4.0]\<close> the formatter
  gives the two lines \<open>3.0,1.0,1\<close> and \<open>4.0,2.0,1\<close>, each preceded by twelve spaces,
  joined by a newline; in general one record per point in input order (as many as the
  shorter input has), each with twelve spaces, then longitude, latitude and the fixed
  altitude 1, separated by commas.
\<close>

theorem format_lat_lon_literal:
  assumes "str (Fin 1) = ''1.0''" "str (Fin 2) = ''2.0''"
    and "str (Fin 3) = ''3.0''" "str (Fin 4) = ''4.0''"
  shows "format_lat_lon str [Fin 1, Fin 2] [Fin 3, Fin 4]
      = ''            3.0,1.0,1'' @ [CHR 0x0A] @ ''            4.0,2.0,1''
    \<and> format_lat_lon str lat lon
      = join [CHR 0x0A]
          (map (\<lambda>i. replicate 12 (CHR '' '') @ str (lon ! i) @ '','' @ str (lat ! i) @ '',1'')
             [0..<min (length lat) (length lon)])"
proof
  show "format_lat_lon str [Fin 1, Fin 2] [Fin 3, Fin 4]
      = ''            3.0,1.0,1'' @ [CHR 0x0A] @ ''            4.0,2.0,1''"
    using assms by (simp add: format_lat_lon_def)
  have r: "replicate 12 (CHR '' '') = ''            ''"
    by (simp add: numeral_eq_Suc)
  show "format_lat_lon str lat lon
      = join [CHR 0x0A]
          (map (\<lambda>i. replicate 12 (CHR '' '') @ str (lon ! i) @ '','' @ str (lat ! i) @ '',1'')
             [0..<min (length lat) (length lon)])"
    unfolding r format_lat_lon_def Let_def map_zip_nth by simp
qed

theorem format_lat_lon_literal_witness:
  "format_lat_lon str_whole [Fin 1, Fin 2] [Fin 3, Fin 4]
      = ''            3.0,1.0,1'' @ [CHR 0x0A] @ ''            4.0,2.0,1''"
  using format_lat_lon_literal [of str_whole, THEN conjunct1] by (simp add: str_whole_digits)

end
